theory Spec2Isabelle
  imports Complex_Main
begin

section \<open>Data model\<close>

text \<open>
  The enumerations of \<^verbatim>\<open>utils/constants.js\<close>. In the source they are integer-valued
  object literals; only their identity is ever inspected, so each becomes a datatype
  with the source's member names.
\<close>

datatype STATUS = ATTACKED | IDLE | WALK | DASH | DASHEND | JUMPSTART | JUMPOFF | JUMPDOWN
  | WALL | DAMAGED | A1 | A2 | A3 | FIREATTACK | JUMPATTACK

datatype DIRECTION = LEFT | RIGHT | UP | DOWN

datatype POS_STATION = GROUND | AIR | ATTACH_WALL

text \<open>
  \<^verbatim>\<open>Player.dashPhase\<close> holds one of the string literals \<^verbatim>\<open>'none'\<close>, \<^verbatim>\<open>'start'\<close>,
  \<^verbatim>\<open>'moving'\<close>, \<^verbatim>\<open>'end'\<close>; \<^verbatim>\<open>Player.currentAnimation\<close> holds one of the seven keys of
  \<^verbatim>\<open>Player.animations\<close>.
\<close>

datatype dashPhaseName = Phase_none | Phase_start | Phase_moving | Phase_end

datatype animName = Anim_IDLE | Anim_WALK | Anim_JUMP_START | Anim_JUMP_DOWN | Anim_DASH
  | Anim_DASH_END | Anim_ATTACK

text \<open>
  JavaScript numbers are modelled as mathematical reals: rounding of IEEE doubles,
  infinities and NaN are outside the model.
\<close>

text \<open>The \<^verbatim>\<open>{x, y, z}\<close> object of \<^verbatim>\<open>ObjectSortManager.scrollOffset\<close>.\<close>

record vec3 =
  vx :: real
  vy :: real
  vz :: real

text \<open>
  \<^verbatim>\<open>ObjectSortManager\<close>: the layers hold object references, modelled as identifiers
  (natural numbers) into a store of objects.
\<close>

record objectSortManager =
  objectLayers :: "nat list list"
  scrollOffset :: vec3
  initialized :: bool

text \<open>
  \<^verbatim>\<open>KeyManager.keys\<close> is a \<^verbatim>\<open>Map\<close> from key names to booleans;
  \<^verbatim>\<open>TimeManager\<close> is read only through \<^verbatim>\<open>getTime()\<close>.
\<close>

type_synonym keyManager = "string \<rightharpoonup> bool"

record timeManager =
  deltaTime :: real

text \<open>
  \<^verbatim>\<open>GameObject\<close> (the fields the scheduler and the player's update read) and its
  subclass \<^verbatim>\<open>Player\<close>. The player's coordinates \<^verbatim>\<open>x\<close>, \<^verbatim>\<open>y\<close> are named
  \<open>posx\<close>, \<open>posy\<close>; \<^verbatim>\<open>dashEasing.startAcceleration\<close>, \<^verbatim>\<open>dashEasing.endDeceleration\<close>,
  \<^verbatim>\<open>jumpFrames.jumpStart\<close> and \<^verbatim>\<open>jumpFrames.jumpDown\<close> are flattened into fields of
  their own. The field \<open>objectSortManager\<close> is the player's reference to the scheduler
  singleton, whose scroll offset the player alone writes. Sprites, textures, sounds and
  console output are not modelled.
\<close>

record gameObject =
  sortID :: int
  visible :: bool
  active :: bool
  destroyed :: bool

record player = gameObject +
  status :: STATUS
  direction :: DIRECTION
  positionStation :: POS_STATION
  posx :: real
  posy :: real
  maxYPosition :: real
  speed :: real
  highSpeed :: real
  jumpPower :: real
  angle :: real
  velocityX :: real
  velocityY :: real
  gravity :: real
  maxFallSpeed :: real
  isOnGround :: bool
  canJump :: bool
  jumpKeyWasPressed :: bool
  dashKeyWasPressed :: bool
  isDashing :: bool
  dashDistance :: real
  dashSpeed :: real
  dashProgress :: real
  dashPhase :: dashPhaseName
  canDashAgain :: bool
  dashDirection :: DIRECTION
  canChangeDashDirection :: bool
  startAcceleration :: real
  endDeceleration :: real
  attackTimer :: real
  maxAttackDuration :: real
  isSuperJumping :: bool
  superJumpVelocityX :: real
  superJumpMultiplier :: real
  currentAnimation :: animName
  animationFrame :: int
  frameTime :: real
  isControlEnabled :: bool
  isGrounded :: bool
  jumpStart :: real
  jumpDown :: real
  objectSortManager :: objectSortManager

text \<open>Early \<^verbatim>\<open>return\<close> from the state switch of \<^verbatim>\<open>checkInput\<close> is a value.\<close>

datatype flow = Return player | Continue player

section \<open>Managers\<close>

definition isKeyDown :: "keyManager \<Rightarrow> string \<Rightarrow> bool" where
  "isKeyDown keys key = (keys key = Some True)"

definition getTime :: "timeManager \<Rightarrow> real" where
  "getTime tm = deltaTime tm"

definition getScrollOffset :: "objectSortManager \<Rightarrow> vec3" where
  "getScrollOffset m = scrollOffset m"

definition setScrollOffset :: "real \<Rightarrow> real \<Rightarrow> real \<Rightarrow> objectSortManager \<Rightarrow> objectSortManager" where
  "setScrollOffset a b c m = m\<lparr>scrollOffset := \<lparr>vx = a, vy = b, vz = c\<rparr>\<rparr>"

section \<open>Player: input handling\<close>

definition isAttacking :: "player \<Rightarrow> bool" where
  "isAttacking p =
     (status p = A1 \<or> status p = A2 \<or> status p = A3 \<or> status p = FIREATTACK
      \<or> status p = JUMPATTACK)"

definition updateScroll :: "real \<Rightarrow> player \<Rightarrow> player" where
  "updateScroll scrollDelta p =
     (if posx p > 400 \<and> posx p < 1200 then
        (let so = getScrollOffset (objectSortManager p) in
         p\<lparr>objectSortManager :=
             setScrollOffset (vx so + scrollDelta) (vy so) (vz so) (objectSortManager p)\<rparr>)
      else p)"

definition handleWalking :: "bool \<Rightarrow> bool \<Rightarrow> real \<Rightarrow> player \<Rightarrow> player" where
  "handleWalking leftKeyDown rightKeyDown dt p =
     (if leftKeyDown then
        updateScroll (speed p * dt)
          (p\<lparr>direction := LEFT, status := WALK, posx := posx p - speed p * dt\<rparr>)
      else if rightKeyDown then
        updateScroll (- speed p * dt)
          (p\<lparr>direction := RIGHT, status := WALK, posx := posx p + speed p * dt\<rparr>)
      else if isOnGround p \<and> \<not> isDashing p then p\<lparr>status := IDLE\<rparr>
      else p)"

definition handleAirMovement :: "bool \<Rightarrow> bool \<Rightarrow> real \<Rightarrow> player \<Rightarrow> player" where
  "handleAirMovement leftKeyDown rightKeyDown dt p =
     (let airControlSpeed = speed p * 0.7 in
      if leftKeyDown then
        updateScroll (airControlSpeed * dt)
          (p\<lparr>direction := LEFT, posx := posx p - airControlSpeed * dt\<rparr>)
      else if rightKeyDown then
        updateScroll (- airControlSpeed * dt)
          (p\<lparr>direction := RIGHT, posx := posx p + airControlSpeed * dt\<rparr>)
      else p)"

text \<open>The block \<^verbatim>\<open>GROUND DETECTION\<close> of \<^verbatim>\<open>checkInput\<close>.\<close>

definition groundDetection :: "player \<Rightarrow> player" where
  "groundDetection p =
     (if posy p \<ge> maxYPosition p then
        (let p1 = p\<lparr>positionStation := GROUND, isOnGround := True, jumpDown := 0,
                     isGrounded := True, angle := 0\<rparr>
         in if status p1 = JUMPDOWN \<and> isDashing p1 then p1\<lparr>isDashing := False\<rparr> else p1)
      else p\<lparr>positionStation := AIR, isOnGround := False, isGrounded := False\<rparr>)"

text \<open>The block \<^verbatim>\<open>1. ALWAYS RESET KEY TRACKING FIRST\<close>.\<close>

definition resetKeyTracking :: "bool \<Rightarrow> bool \<Rightarrow> player \<Rightarrow> player" where
  "resetKeyTracking xKeyDown zKeyDown p =
     (let p1 = (if \<not> xKeyDown then
                  (let q = p\<lparr>jumpKeyWasPressed := False\<rparr>
                   in if isOnGround q then q\<lparr>canJump := True\<rparr> else q)
                else p)
      in if \<not> zKeyDown \<and> \<not> isDashing p1 then p1\<lparr>dashKeyWasPressed := False\<rparr> else p1)"

text \<open>The bodies of the four action branches of the \<^verbatim>\<open>IDLE\<close>/\<^verbatim>\<open>WALK\<close> case.\<close>

definition basicAttack :: "player \<Rightarrow> player" where
  "basicAttack p = p\<lparr>animationFrame := 0, status := A1, attackTimer := 0\<rparr>"

definition fireAttack :: "player \<Rightarrow> player" where
  "fireAttack p = p\<lparr>status := FIREATTACK, attackTimer := 0, positionStation := AIR\<rparr>"

definition superJump :: "player \<Rightarrow> player" where
  "superJump p =
     p\<lparr>status := JUMPSTART,
       velocityY := - jumpPower p * 10 * superJumpMultiplier p,
       velocityX := (if direction p = RIGHT then superJumpVelocityX p
                     else - superJumpVelocityX p),
       isOnGround := False, canJump := False, jumpKeyWasPressed := True,
       dashKeyWasPressed := True, positionStation := AIR, jumpStart := 0,
       animationFrame := 0, isGrounded := False, isSuperJumping := True\<rparr>"

definition regularJump :: "player \<Rightarrow> player" where
  "regularJump p =
     p\<lparr>status := JUMPSTART, velocityY := - jumpPower p * 10, isOnGround := False,
       canJump := False, jumpKeyWasPressed := True, positionStation := AIR,
       jumpStart := 0, animationFrame := 0, isGrounded := False\<rparr>"

definition startDash :: "bool \<Rightarrow> bool \<Rightarrow> player \<Rightarrow> player" where
  "startDash leftKeyDown rightKeyDown p =
     (let p1 = p\<lparr>status := DASH, isDashing := True, dashProgress := 0,
                 dashPhase := Phase_start, dashKeyWasPressed := True,
                 canDashAgain := False\<rparr>
      in if leftKeyDown then p1\<lparr>dashDirection := LEFT, direction := LEFT\<rparr>
         else if rightKeyDown then p1\<lparr>dashDirection := RIGHT, direction := RIGHT\<rparr>
         else p1\<lparr>dashDirection := direction p1\<rparr>)"

text \<open>\<^verbatim>\<open>case STATUS.IDLE: case STATUS.WALK:\<close>\<close>

definition idleWalkCase ::
  "bool \<Rightarrow> bool \<Rightarrow> bool \<Rightarrow> bool \<Rightarrow> bool \<Rightarrow> bool \<Rightarrow> real \<Rightarrow> player \<Rightarrow> flow" where
  "idleWalkCase xKeyDown zKeyDown leftKeyDown rightKeyDown cKeyDown vKeyDown dt p =
     (if cKeyDown \<and> isOnGround p then Return (basicAttack p)
      else if vKeyDown \<and> isOnGround p then Return (fireAttack p)
      else if xKeyDown \<and> zKeyDown \<and> \<not> jumpKeyWasPressed p \<and> \<not> dashKeyWasPressed p
              \<and> isOnGround p \<and> canJump p \<and> canDashAgain p
        then Return (superJump p)
      else if xKeyDown \<and> \<not> jumpKeyWasPressed p \<and> isOnGround p \<and> canJump p
        then Return (regularJump p)
      else if zKeyDown \<and> \<not> dashKeyWasPressed p \<and> isOnGround p \<and> \<not> isDashing p
              \<and> canDashAgain p
        then Return (startDash leftKeyDown rightKeyDown p)
      else Continue (handleWalking leftKeyDown rightKeyDown dt p))"

text \<open>\<^verbatim>\<open>case STATUS.JUMPSTART: case STATUS.JUMPDOWN:\<close>\<close>

definition jumpStartAscent :: "bool \<Rightarrow> real \<Rightarrow> player \<Rightarrow> player" where
  "jumpStartAscent xKeyDown dt p =
     (let p1 = (if velocityY p < 0 then
                  (let so = getScrollOffset (objectSortManager p) in
                   p\<lparr>posy := posy p - jumpPower p * cos (angle p * pi / 180 * 2),
                     objectSortManager :=
                       setScrollOffset (vx so) (min (vy so + speed p * dt) 80) (vz so)
                         (objectSortManager p),
                     isGrounded := False\<rparr>)
                else p);
          p2 = (if velocityY p1 \<ge> 0 then p1\<lparr>status := JUMPDOWN, jumpDown := 0\<rparr> else p1)
      in if \<not> xKeyDown
         then p2\<lparr>status := JUMPDOWN, jumpStart := 0, jumpDown := 0, angle := 90\<rparr>
         else p2)"

definition jumpCase :: "bool \<Rightarrow> bool \<Rightarrow> bool \<Rightarrow> bool \<Rightarrow> real \<Rightarrow> player \<Rightarrow> flow" where
  "jumpCase xKeyDown leftKeyDown rightKeyDown cKeyDown dt p =
     (if cKeyDown then Return (p\<lparr>status := JUMPATTACK, attackTimer := 0, angle := 120\<rparr>)
      else
        (let p1 = (if status p = JUMPSTART then jumpStartAscent xKeyDown dt p else p)
         in Continue (handleAirMovement leftKeyDown rightKeyDown dt p1)))"

text \<open>\<^verbatim>\<open>case STATUS.A1: case STATUS.JUMPATTACK: case STATUS.FIREATTACK:\<close>\<close>

definition attackCase :: "real \<Rightarrow> player \<Rightarrow> player" where
  "attackCase dt p =
     (let p1 = p\<lparr>attackTimer := attackTimer p + dt\<rparr> in
      if attackTimer p1 \<ge> maxAttackDuration p1 then
        (let p2 = p1\<lparr>attackTimer := 0\<rparr> in
         if status p2 = JUMPATTACK \<and> \<not> isOnGround p2 then p2\<lparr>status := JUMPDOWN\<rparr>
         else p2\<lparr>status := IDLE\<rparr>)
      else p1)"

text \<open>The \<^verbatim>\<open>switch (this.status)\<close> of block \<^verbatim>\<open>2. STATE MACHINE APPROACH\<close>.\<close>

definition stateMachine ::
  "bool \<Rightarrow> bool \<Rightarrow> bool \<Rightarrow> bool \<Rightarrow> bool \<Rightarrow> bool \<Rightarrow> real \<Rightarrow> player \<Rightarrow> flow" where
  "stateMachine xKeyDown zKeyDown leftKeyDown rightKeyDown cKeyDown vKeyDown dt p =
     (case status p of
        IDLE \<Rightarrow> idleWalkCase xKeyDown zKeyDown leftKeyDown rightKeyDown cKeyDown vKeyDown dt p
      | WALK \<Rightarrow> idleWalkCase xKeyDown zKeyDown leftKeyDown rightKeyDown cKeyDown vKeyDown dt p
      | JUMPSTART \<Rightarrow> jumpCase xKeyDown leftKeyDown rightKeyDown cKeyDown dt p
      | JUMPDOWN \<Rightarrow> jumpCase xKeyDown leftKeyDown rightKeyDown cKeyDown dt p
      | DASH \<Rightarrow> Continue p
      | DASHEND \<Rightarrow> Continue p
      | A1 \<Rightarrow> Continue (attackCase dt p)
      | JUMPATTACK \<Rightarrow> Continue (attackCase dt p)
      | FIREATTACK \<Rightarrow> Continue (attackCase dt p)
      | _ \<Rightarrow> Continue (if positionStation p = AIR then p\<lparr>status := JUMPDOWN\<rparr> else p))"

text \<open>
  The block \<^verbatim>\<open>3. SAFETY RESETS\<close>: its four \<^verbatim>\<open>if\<close> statements in source order, and
  the enclosing \<^verbatim>\<open>if (this.isOnGround)\<close>.
\<close>

definition safetyJumpKey :: "bool \<Rightarrow> player \<Rightarrow> player" where
  "safetyJumpKey xKeyDown p =
     (if \<not> xKeyDown then p\<lparr>jumpKeyWasPressed := False, canJump := True\<rparr> else p)"

definition safetyDashKey :: "bool \<Rightarrow> player \<Rightarrow> player" where
  "safetyDashKey zKeyDown p =
     (if \<not> zKeyDown then
        (let q = p\<lparr>dashKeyWasPressed := False\<rparr>
         in if \<not> isDashing q then q\<lparr>canDashAgain := True\<rparr> else q)
      else p)"

definition safetyStuckDash :: "player \<Rightarrow> player" where
  "safetyStuckDash p =
     (if isDashing p \<and> status p \<noteq> DASH \<and> status p \<noteq> DASHEND then
        p\<lparr>isDashing := False, dashPhase := Phase_none, canDashAgain := True,
          dashDirection := direction p\<rparr>
      else p)"

definition safetyForceIdle :: "bool \<Rightarrow> bool \<Rightarrow> bool \<Rightarrow> bool \<Rightarrow> player \<Rightarrow> player" where
  "safetyForceIdle xKeyDown zKeyDown leftKeyDown rightKeyDown p =
     (if \<not> xKeyDown \<and> \<not> zKeyDown \<and> \<not> leftKeyDown \<and> \<not> rightKeyDown
         \<and> status p \<noteq> IDLE \<and> status p \<noteq> WALK \<and> status p \<noteq> DASH
         \<and> status p \<noteq> DASHEND \<and> \<not> isAttacking p
      then p\<lparr>status := IDLE, canDashAgain := True\<rparr>
      else p)"

definition safetyResets :: "bool \<Rightarrow> bool \<Rightarrow> bool \<Rightarrow> bool \<Rightarrow> player \<Rightarrow> player" where
  "safetyResets xKeyDown zKeyDown leftKeyDown rightKeyDown p =
     (if isOnGround p then
        safetyForceIdle xKeyDown zKeyDown leftKeyDown rightKeyDown
          (safetyStuckDash (safetyDashKey zKeyDown (safetyJumpKey xKeyDown p)))
      else p)"

definition checkInput :: "keyManager \<Rightarrow> timeManager \<Rightarrow> player \<Rightarrow> player" where
  "checkInput keys tm p =
     (if \<not> isControlEnabled p then p
      else
        (let dt = getTime tm;
             xKeyDown = isKeyDown keys ''X'';
             zKeyDown = isKeyDown keys ''Z'';
             leftKeyDown = isKeyDown keys ''LEFT'';
             rightKeyDown = isKeyDown keys ''RIGHT'';
             cKeyDown = isKeyDown keys ''C'';
             vKeyDown = isKeyDown keys ''V'';
             p1 = groundDetection p;
             p2 = resetKeyTracking xKeyDown zKeyDown p1
         in case stateMachine xKeyDown zKeyDown leftKeyDown rightKeyDown cKeyDown vKeyDown dt p2 of
              Return p3 \<Rightarrow> p3
            | Continue p3 \<Rightarrow> safetyResets xKeyDown zKeyDown leftKeyDown rightKeyDown p3))"

section \<open>Player: physics\<close>

text \<open>The stages of \<^verbatim>\<open>updatePhysics\<close>, in source order.\<close>

definition applyGravity :: "real \<Rightarrow> player \<Rightarrow> player" where
  "applyGravity dt p =
     (if \<not> isOnGround p then
        (let p1 = p\<lparr>velocityY := velocityY p + gravity p * dt\<rparr>
         in if velocityY p1 > maxFallSpeed p1 then p1\<lparr>velocityY := maxFallSpeed p1\<rparr> else p1)
      else p)"

definition superJumpPhysics :: "real \<Rightarrow> player \<Rightarrow> player" where
  "superJumpPhysics dt p =
     (if isSuperJumping p then
        (let p1 = p\<lparr>posx := posx p + velocityX p * dt\<rparr>;
             p2 = p1\<lparr>velocityX := velocityX p1 * 0.98\<rparr>;
             p3 = (if velocityX p2 > 0 then updateScroll (- velocityX p2 * dt * 0.5) p2
                   else updateScroll (- velocityX p2 * dt * 0.5) p2)
         in if velocityY p3 > jumpPower p3 * 2
            then p3\<lparr>isSuperJumping := False, velocityX := velocityX p3 * 0.5\<rparr>
            else p3)
      else p)"

definition easingFactor :: "player \<Rightarrow> real" where
  "easingFactor p =
     (let progress = dashProgress p / dashDistance p in
      if progress < startAcceleration p then 0.3 + (progress / startAcceleration p) * 0.7
      else if progress > (1.0 - endDeceleration p) then
        (let endProgress = (progress - (1.0 - endDeceleration p)) / endDeceleration p
         in 1.0 - (endProgress * 0.4))
      else 1.0)"

text \<open>The branch \<^verbatim>\<open>dashPhase === 'moving'\<close> of \<^verbatim>\<open>case STATUS.DASH\<close>.\<close>

definition dashMoving :: "keyManager \<Rightarrow> real \<Rightarrow> player \<Rightarrow> player" where
  "dashMoving keys dt p =
     (let baseDashMovement = dashSpeed p * dt;
          dashMovement = baseDashMovement * easingFactor p;
          p1 = (if canChangeDashDirection p then
                  (let leftKeyDown = isKeyDown keys ''LEFT'';
                       rightKeyDown = isKeyDown keys ''RIGHT''
                   in if leftKeyDown \<and> \<not> rightKeyDown
                        then p\<lparr>dashDirection := LEFT, direction := LEFT\<rparr>
                      else if rightKeyDown \<and> \<not> leftKeyDown
                        then p\<lparr>dashDirection := RIGHT, direction := RIGHT\<rparr>
                      else p)
                else p);
          p2 = (if dashDirection p1 = RIGHT
                  then updateScroll (- dashMovement) (p1\<lparr>posx := posx p1 + dashMovement\<rparr>)
                else updateScroll dashMovement (p1\<lparr>posx := posx p1 - dashMovement\<rparr>));
          p3 = p2\<lparr>dashProgress := dashProgress p2 + baseDashMovement\<rparr>
      in if dashProgress p3 \<ge> dashDistance p3 * 0.85
         then p3\<lparr>dashPhase := Phase_end, status := DASHEND\<rparr>
         else p3)"

text \<open>The \<^verbatim>\<open>switch (this.status)\<close> of \<^verbatim>\<open>updatePhysics\<close>.\<close>

definition statePhysics :: "keyManager \<Rightarrow> real \<Rightarrow> player \<Rightarrow> player" where
  "statePhysics keys dt p =
     (case status p of
        DASH \<Rightarrow> (if dashPhase p = Phase_start then p
                 else if dashPhase p = Phase_moving then dashMoving keys dt p
                 else p)
      | DASHEND \<Rightarrow> p
      | JUMPSTART \<Rightarrow> p
      | JUMPDOWN \<Rightarrow> p
      | _ \<Rightarrow> p\<lparr>velocityX := velocityX p * 0.8\<rparr>)"

definition applyVelocities :: "real \<Rightarrow> player \<Rightarrow> player" where
  "applyVelocities dt p =
     p\<lparr>posx := posx p + velocityX p * dt, posy := posy p + velocityY p * dt\<rparr>"

definition groundCollision :: "player \<Rightarrow> player" where
  "groundCollision p =
     (if posy p \<ge> maxYPosition p then
        (let p1 = p\<lparr>posy := maxYPosition p, velocityY := 0, isOnGround := True,
                     positionStation := GROUND\<rparr>;
             p2 = (if \<not> jumpKeyWasPressed p1 then p1\<lparr>canJump := True\<rparr> else p1);
             p3 = (if isSuperJumping p2 then p2\<lparr>isSuperJumping := False\<rparr> else p2);
             p4 = (if (status p3 = JUMPSTART \<or> status p3 = JUMPDOWN) \<and> \<not> isDashing p3
                     then p3\<lparr>status := IDLE, isDashing := False, dashPhase := Phase_none\<rparr>
                   else p3)
         in p4\<lparr>positionStation := GROUND\<rparr>)
      else
        (let p1 = p\<lparr>isOnGround := False, positionStation := AIR\<rparr>
         in if velocityY p1 > 0 \<and> status p1 = JUMPSTART then p1\<lparr>status := JUMPDOWN\<rparr>
            else p1))"

definition screenBoundaries :: "player \<Rightarrow> player" where
  "screenBoundaries p =
     (let p1 = (if posx p < 20 then p\<lparr>posx := 20, velocityX := 0\<rparr> else p)
      in if posx p1 > 780 then p1\<lparr>posx := 780, velocityX := 0\<rparr> else p1)"

definition updatePhysics :: "keyManager \<Rightarrow> real \<Rightarrow> player \<Rightarrow> player" where
  "updatePhysics keys dt p =
     screenBoundaries (groundCollision (applyVelocities dt
       (statePhysics keys dt (superJumpPhysics dt (applyGravity dt p)))))"

section \<open>Player: animation clock\<close>

record animData =
  frames :: int
  animSpeed :: real

text \<open>The table \<^verbatim>\<open>Player.animations\<close> (\<^verbatim>\<open>frames\<close> and \<^verbatim>\<open>speed\<close> of each entry).\<close>

definition animations :: "animName \<Rightarrow> animData" where
  "animations a =
     (case a of
        Anim_IDLE \<Rightarrow> \<lparr>frames = 5, animSpeed = 0.5\<rparr>
      | Anim_WALK \<Rightarrow> \<lparr>frames = 14, animSpeed = 12\<rparr>
      | Anim_JUMP_START \<Rightarrow> \<lparr>frames = 4, animSpeed = 8\<rparr>
      | Anim_JUMP_DOWN \<Rightarrow> \<lparr>frames = 6, animSpeed = 8\<rparr>
      | Anim_DASH \<Rightarrow> \<lparr>frames = 7, animSpeed = 10\<rparr>
      | Anim_DASH_END \<Rightarrow> \<lparr>frames = 4, animSpeed = 8\<rparr>
      | Anim_ATTACK \<Rightarrow> \<lparr>frames = 7, animSpeed = 12\<rparr>)"

definition targetAnimation :: "STATUS \<Rightarrow> animName" where
  "targetAnimation s =
     (case s of
        IDLE \<Rightarrow> Anim_IDLE
      | WALK \<Rightarrow> Anim_WALK
      | DASH \<Rightarrow> Anim_DASH
      | DASHEND \<Rightarrow> Anim_DASH_END
      | JUMPSTART \<Rightarrow> Anim_JUMP_START
      | JUMPDOWN \<Rightarrow> Anim_JUMP_DOWN
      | A1 \<Rightarrow> Anim_ATTACK
      | JUMPATTACK \<Rightarrow> Anim_ATTACK
      | FIREATTACK \<Rightarrow> Anim_ATTACK
      | _ \<Rightarrow> Anim_IDLE)"

definition changeAnimation :: "animName \<Rightarrow> player \<Rightarrow> player" where
  "changeAnimation newAnimation p =
     (if currentAnimation p = newAnimation then p
      else p\<lparr>currentAnimation := newAnimation, animationFrame := 0, frameTime := 0\<rparr>)"

text \<open>The handler run when \<^verbatim>\<open>frameTime >= animData.frames\<close>.\<close>

definition animationCompleted :: "keyManager \<Rightarrow> player \<Rightarrow> player" where
  "animationCompleted keys p =
     (let p1 = p\<lparr>frameTime := 0\<rparr> in
      if currentAnimation p1 = Anim_DASH \<and> dashPhase p1 = Phase_start then
        p1\<lparr>dashPhase := Phase_moving, dashProgress := 0\<rparr>
      else if currentAnimation p1 = Anim_DASH_END \<and> dashPhase p1 = Phase_end then
        (let p2 = p1\<lparr>isDashing := False, dashPhase := Phase_none, status := IDLE,
                      canDashAgain := True\<rparr>;
             p3 = (if isKeyDown keys ''Z'' then p2\<lparr>dashKeyWasPressed := False\<rparr>
                   else p2\<lparr>dashKeyWasPressed := False\<rparr>)
         in p3\<lparr>dashDirection := direction p3\<rparr>)
      else if currentAnimation p1 = Anim_ATTACK then
        (let p2 = p1\<lparr>attackTimer := 0\<rparr> in
         if status p2 = JUMPATTACK then
           (if isOnGround p2 then p2\<lparr>status := IDLE\<rparr> else p2\<lparr>status := JUMPDOWN\<rparr>)
         else if status p2 = FIREATTACK then p2\<lparr>status := IDLE\<rparr>
         else p2\<lparr>status := IDLE\<rparr>)
      else p1)"

definition updateAnimation :: "keyManager \<Rightarrow> real \<Rightarrow> player \<Rightarrow> player" where
  "updateAnimation keys dt p =
     (let target = targetAnimation (status p);
          p1 = (if currentAnimation p \<noteq> target then changeAnimation target p else p);
          ad = animations (currentAnimation p1);
          p2 = p1\<lparr>frameTime := frameTime p1 + animSpeed ad * dt\<rparr>
      in if frameTime p2 \<ge> 1.0 then
           (let p3 = p2\<lparr>animationFrame := \<lfloor>frameTime p2\<rfloor> mod frames ad\<rparr>;
                p4 = (if currentAnimation p3 = Anim_DASH \<and> dashPhase p3 = Phase_start
                         \<and> animationFrame p3 \<ge> 4
                        then p3\<lparr>dashPhase := Phase_moving, dashProgress := 0\<rparr>
                      else p3)
            in if frameTime p4 \<ge> real_of_int (frames ad) then animationCompleted keys p4
               else p4)
         else p2)"

section \<open>Player: the per-frame update\<close>

text \<open>
  \<^verbatim>\<open>GameObject.update\<close>, reached from \<^verbatim>\<open>Player.update\<close> through
  \<^verbatim>\<open>super.update(deltaTime)\<close>: its calls \<^verbatim>\<open>this.updateAnimation\<close> and
  \<^verbatim>\<open>this.updatePhysics\<close> dispatch to the player's overriding methods.
\<close>

definition gameObjectUpdate :: "keyManager \<Rightarrow> real \<Rightarrow> player \<Rightarrow> player" where
  "gameObjectUpdate keys dt p =
     (if \<not> active p \<or> destroyed p then p
      else updatePhysics keys dt (updateAnimation keys dt p))"

text \<open>The state of the player between \<^verbatim>\<open>checkInput\<close> and the first physics step.\<close>

definition inputStage :: "keyManager \<Rightarrow> timeManager \<Rightarrow> player \<Rightarrow> player" where
  "inputStage keys tm p = (if isControlEnabled p then checkInput keys tm p else p)"

definition update :: "keyManager \<Rightarrow> timeManager \<Rightarrow> real \<Rightarrow> player \<Rightarrow> player" where
  "update keys tm dt p =
     (if destroyed p then p
      else gameObjectUpdate keys dt
             (updateAnimation keys dt (updatePhysics keys dt (inputStage keys tm p))))"

section \<open>Layer scheduler\<close>

definition initializeLayers :: "objectSortManager \<Rightarrow> objectSortManager" where
  "initializeLayers m = m\<lparr>objectLayers := replicate 20 [], initialized := True\<rparr>"

text \<open>The constructor of \<^verbatim>\<open>ObjectSortManager\<close>.\<close>

definition newObjectSortManager :: objectSortManager where
  "newObjectSortManager =
     initializeLayers
       \<lparr>objectLayers = [], scrollOffset = \<lparr>vx = - 600, vy = 30, vz = 0\<rparr>,
        initialized = False\<rparr>"

definition getSortID :: "'a gameObject_scheme \<Rightarrow> int" where
  "getSortID obj = sortID obj"

definition isDestroyed :: "'a gameObject_scheme \<Rightarrow> bool" where
  "isDestroyed obj = destroyed obj"

text \<open>
  \<^verbatim>\<open>addSortedObject\<close>: the object is the identifier \<open>obj\<close>, read through the store;
  the result pairs the returned boolean with the updated manager.
\<close>

definition addSortedObject ::
  "(nat \<Rightarrow> 'a gameObject_scheme) \<Rightarrow> nat \<Rightarrow> objectSortManager \<Rightarrow> bool \<times> objectSortManager" where
  "addSortedObject store obj m =
     (if \<not> initialized m then (False, m)
      else
        (let sid = getSortID (store obj) in
         if sid \<ge> 0 \<and> sid < int (length (objectLayers m)) then
           (True, m\<lparr>objectLayers :=
                      (objectLayers m)[nat sid := objectLayers m ! nat sid @ [obj]]\<rparr>)
         else (False, m)))"

definition insertObject ::
  "(nat \<Rightarrow> 'a gameObject_scheme) \<Rightarrow> nat \<Rightarrow> objectSortManager \<Rightarrow> bool \<times> objectSortManager" where
  "insertObject store obj m = addSortedObject store obj m"

text \<open>
  \<^verbatim>\<open>renderObjects\<close>: the result is the sequence of objects on which \<^verbatim>\<open>render()\<close> is
  invoked, in invocation order.
\<close>

fun renderLayer :: "(nat \<Rightarrow> 'a gameObject_scheme) \<Rightarrow> nat list \<Rightarrow> nat list" where
  "renderLayer store [] = []"
| "renderLayer store (obj # rest) =
     (if visible (store obj) \<and> \<not> isDestroyed (store obj)
      then obj # renderLayer store rest
      else renderLayer store rest)"

fun renderLayers :: "(nat \<Rightarrow> 'a gameObject_scheme) \<Rightarrow> nat list list \<Rightarrow> nat list" where
  "renderLayers store [] = []"
| "renderLayers store (layer # layers) = renderLayer store layer @ renderLayers store layers"

definition renderObjects :: "(nat \<Rightarrow> 'a gameObject_scheme) \<Rightarrow> objectSortManager \<Rightarrow> nat list" where
  "renderObjects store m = (if \<not> initialized m then [] else renderLayers store (objectLayers m))"

text \<open>Inserting a sequence of objects, one \<^verbatim>\<open>insertObject\<close> call each, in order.\<close>

fun insertAll ::
  "(nat \<Rightarrow> 'a gameObject_scheme) \<Rightarrow> nat list \<Rightarrow> objectSortManager \<Rightarrow> objectSortManager" where
  "insertAll store [] m = m"
| "insertAll store (obj # rest) m = insertAll store rest (snd (insertObject store obj m))"

section \<open>Initial state and reachable frames\<close>

text \<open>
  The player as the constructor and \<^verbatim>\<open>initialize()\<close> leave it (control enabled,
  status \<^verbatim>\<open>IDLE\<close>), holding the freshly constructed scheduler singleton.
\<close>

definition newPlayer :: player where
  "newPlayer =
     \<lparr>sortID = 7, visible = True, active = True, destroyed = False,
      status = IDLE, direction = RIGHT, positionStation = GROUND,
      posx = 400, posy = 480, maxYPosition = 480, speed = 220, highSpeed = 350,
      jumpPower = 15, angle = 0, velocityX = 0, velocityY = 0, gravity = 300,
      maxFallSpeed = 400, isOnGround = True, canJump = True, jumpKeyWasPressed = False,
      dashKeyWasPressed = False, isDashing = False, dashDistance = 300, dashSpeed = 350,
      dashProgress = 0, dashPhase = Phase_none, canDashAgain = True,
      dashDirection = RIGHT, canChangeDashDirection = True, startAcceleration = 0.4,
      endDeceleration = 0.6, attackTimer = 0, maxAttackDuration = 1.0,
      isSuperJumping = False, superJumpVelocityX = 300, superJumpMultiplier = 1.5,
      currentAnimation = Anim_IDLE, animationFrame = 0, frameTime = 0,
      isControlEnabled = True, isGrounded = False, jumpStart = 0, jumpDown = 0,
      objectSortManager = newObjectSortManager\<rparr>"

text \<open>
  The states in which a frame can start: the initial player, and the result of any
  \<^verbatim>\<open>update\<close> call (with any key state and any time step) on such a state.
\<close>

inductive reachable :: "player \<Rightarrow> bool" where
  reachable_init: "reachable newPlayer"
| reachable_update: "reachable p \<Longrightarrow> reachable (update keys tm dt p)"

section \<open>Auxiliary definitions for the statements\<close>

text \<open>The scroll offset as the player sees it through its scheduler reference.\<close>

abbreviation scrollOf :: "player \<Rightarrow> vec3" where
  "scrollOf p \<equiv> scrollOffset (objectSortManager p)"

text \<open>
  The fields that only the constructor and \<^verbatim>\<open>initialize()\<close> assign (configuration
  constants, the control flag and the object flags that \<^verbatim>\<open>update\<close> reads), collected
  so that "no method writes them" is a single equation per method.
\<close>

definition constantsOf ::
  "player \<Rightarrow> (real \<times> real \<times> real \<times> real \<times> real \<times> real \<times> real)
     \<times> (real \<times> bool \<times> real \<times> real \<times> real \<times> real \<times> real) \<times> (bool \<times> bool \<times> bool)" where
  "constantsOf p =
     ((maxYPosition p, speed p, highSpeed p, jumpPower p, gravity p, maxFallSpeed p,
       dashDistance p),
      (dashSpeed p, canChangeDashDirection p, startAcceleration p, endDeceleration p,
       maxAttackDuration p, superJumpVelocityX p, superJumpMultiplier p),
      (isControlEnabled p, active p, destroyed p))"

text \<open>
  The player after the ground-detection and key-tracking blocks of \<^verbatim>\<open>checkInput\<close>, on
  entry to its state switch.
\<close>

definition inputPre :: "keyManager \<Rightarrow> player \<Rightarrow> player" where
  "inputPre keys p =
     resetKeyTracking (isKeyDown keys ''X'') (isKeyDown keys ''Z'') (groundDetection p)"

text \<open>
  What holds of the player whenever a frame starts (\<open>frameInv\<close>) and whenever a physics
  step starts (\<open>physicsPre\<close>); both are shown below to hold along every execution.
\<close>

definition frameInv :: "player \<Rightarrow> bool" where
  "frameInv p =
     (constantsOf p = constantsOf newPlayer
      \<and> velocityY p \<le> maxFallSpeed p
      \<and> posy p \<le> maxYPosition p
      \<and> (isOnGround p \<longleftrightarrow> posy p = maxYPosition p)
      \<and> (posy p = maxYPosition p \<longrightarrow> velocityY p = 0)
      \<and> (status p = A1 \<or> status p = FIREATTACK \<longrightarrow> posy p = maxYPosition p))"

definition physicsPre :: "player \<Rightarrow> bool" where
  "physicsPre p =
     (constantsOf p = constantsOf newPlayer
      \<and> velocityY p \<le> maxFallSpeed p
      \<and> (status p = A1 \<or> status p = FIREATTACK \<longrightarrow>
           isOnGround p \<and> posy p \<ge> maxYPosition p \<and> velocityY p = 0))"

text \<open>
  The successive states of the player during one \<^verbatim>\<open>update\<close> call: on entry, after the
  input stage, after each physics and animation step.
\<close>

definition updateStages :: "keyManager \<Rightarrow> timeManager \<Rightarrow> real \<Rightarrow> player \<Rightarrow> player list" where
  "updateStages keys tm dt p =
     (if destroyed p then [p]
      else
        (let p1 = inputStage keys tm p;
             p2 = updatePhysics keys dt p1;
             p3 = updateAnimation keys dt p2
         in if \<not> active p3 \<or> destroyed p3 then [p, p1, p2, p3]
            else [p, p1, p2, p3, updateAnimation keys dt p3,
                  updatePhysics keys dt (updateAnimation keys dt p3)]))"

text \<open>The number of steps in a sequence of states at which the status becomes \<open>JUMPSTART\<close>.\<close>

fun jumpStartEntries :: "player list \<Rightarrow> nat" where
  "jumpStartEntries (a # b # rest) =
     (if status a \<noteq> JUMPSTART \<and> status b = JUMPSTART then 1 else 0)
     + jumpStartEntries (b # rest)"
| "jumpStartEntries _ = 0"

text \<open>
  A frame is the key state, the time manager and the \<^verbatim>\<open>deltaTime\<close> argument of one
  \<^verbatim>\<open>update\<close> call. \<open>jumpStartTransitions\<close> counts the transitions into \<open>JUMPSTART\<close> over
  a run of frames.
\<close>

type_synonym frame = "keyManager \<times> timeManager \<times> real"

fun runFrames :: "frame list \<Rightarrow> player \<Rightarrow> player" where
  "runFrames [] p = p"
| "runFrames ((keys, tm, dt) # fs) p = runFrames fs (update keys tm dt p)"

fun jumpStartTransitions :: "frame list \<Rightarrow> player \<Rightarrow> nat" where
  "jumpStartTransitions [] p = 0"
| "jumpStartTransitions ((keys, tm, dt) # fs) p =
     jumpStartEntries (updateStages keys tm dt p)
     + jumpStartTransitions fs (update keys tm dt p)"

section \<open>The safety-reset pass\<close>

lemmas safety_defs = safetyResets_def safetyForceIdle_def safetyStuckDash_def
  safetyDashKey_def safetyJumpKey_def isAttacking_def Let_def

text \<open>
  Claim C2. Whenever the entity is grounded, after the safety-reset pass a set
  \<open>isDashing\<close> flag implies that the status is \<open>DASH\<close> or \<open>DASHEND\<close>; and if the
  implication is violated on entry, the pass clears \<open>isDashing\<close>, sets \<open>dashPhase\<close> to
  \<open>'none'\<close> and re-opens the dash lock.
\<close>

theorem safety_pass_dash_invariant:
  assumes "isOnGround p"
  shows "(isDashing (safetyResets x z l r p) \<longrightarrow>
            status (safetyResets x z l r p) \<in> {DASH, DASHEND})
         \<and> (isDashing p \<and> status p \<notin> {DASH, DASHEND} \<longrightarrow>
              \<not> isDashing (safetyResets x z l r p)
              \<and> dashPhase (safetyResets x z l r p) = Phase_none
              \<and> canDashAgain (safetyResets x z l r p))"
  using assms by (cases x; cases z; cases "isDashing p"; simp add: safety_defs)

theorem safety_pass_dash_invariant_witness:
  "isOnGround (newPlayer\<lparr>isDashing := True, canDashAgain := False,
                         dashPhase := Phase_moving\<rparr>)
   \<and> \<not> isDashing (safetyResets True True False False
          (newPlayer\<lparr>isDashing := True, canDashAgain := False, dashPhase := Phase_moving\<rparr>))
   \<and> dashPhase (safetyResets True True False False
          (newPlayer\<lparr>isDashing := True, canDashAgain := False, dashPhase := Phase_moving\<rparr>))
       = Phase_none
   \<and> canDashAgain (safetyResets True True False False
          (newPlayer\<lparr>isDashing := True, canDashAgain := False, dashPhase := Phase_moving\<rparr>))"
  using safety_pass_dash_invariant
    [of "newPlayer\<lparr>isDashing := True, canDashAgain := False, dashPhase := Phase_moving\<rparr>"
        True True False False]
  by (simp add: newPlayer_def)

lemma safetyJumpKey_fix:
  "(\<not> x \<longrightarrow> \<not> jumpKeyWasPressed q \<and> canJump q) \<Longrightarrow> safetyJumpKey x q = q"
  by (cases q) (simp add: safetyJumpKey_def)

lemma safetyDashKey_fix:
  "(\<not> z \<longrightarrow> \<not> dashKeyWasPressed q \<and> (\<not> isDashing q \<longrightarrow> canDashAgain q))
   \<Longrightarrow> safetyDashKey z q = q"
  by (cases q) (simp add: safetyDashKey_def Let_def)

lemma safetyStuckDash_fix:
  "(isDashing q \<longrightarrow> status q = DASH \<or> status q = DASHEND) \<Longrightarrow> safetyStuckDash q = q"
  by (auto simp add: safetyStuckDash_def)

lemma safetyForceIdle_fix:
  "(\<not> x \<and> \<not> z \<and> \<not> l \<and> \<not> r \<longrightarrow>
      status q = IDLE \<or> status q = WALK \<or> status q = DASH \<or> status q = DASHEND
      \<or> isAttacking q)
   \<Longrightarrow> safetyForceIdle x z l r q = q"
  by (auto simp add: safetyForceIdle_def)

text \<open>A state on which no statement of the pass has anything left to do is a fixed point.\<close>

lemma safetyResets_fix:
  assumes "\<not> x \<longrightarrow> \<not> jumpKeyWasPressed q \<and> canJump q"
    and "\<not> z \<longrightarrow> \<not> dashKeyWasPressed q \<and> (\<not> isDashing q \<longrightarrow> canDashAgain q)"
    and "isDashing q \<longrightarrow> status q = DASH \<or> status q = DASHEND"
    and "\<not> x \<and> \<not> z \<and> \<not> l \<and> \<not> r \<longrightarrow>
           status q = IDLE \<or> status q = WALK \<or> status q = DASH \<or> status q = DASHEND
           \<or> isAttacking q"
  shows "safetyResets x z l r q = q"
  unfolding safetyResets_def using assms
  by (simp add: safetyJumpKey_fix safetyDashKey_fix safetyStuckDash_fix safetyForceIdle_fix)

lemma safetyResets_settled:
  assumes "isOnGround p"
  shows "\<not> x \<longrightarrow> \<not> jumpKeyWasPressed (safetyResets x z l r p)
                   \<and> canJump (safetyResets x z l r p)"
    and "\<not> z \<longrightarrow> \<not> dashKeyWasPressed (safetyResets x z l r p)
                   \<and> (\<not> isDashing (safetyResets x z l r p)
                        \<longrightarrow> canDashAgain (safetyResets x z l r p))"
    and "isDashing (safetyResets x z l r p) \<longrightarrow>
           status (safetyResets x z l r p) = DASH \<or> status (safetyResets x z l r p) = DASHEND"
    and "\<not> x \<and> \<not> z \<and> \<not> l \<and> \<not> r \<longrightarrow>
           status (safetyResets x z l r p) = IDLE \<or> status (safetyResets x z l r p) = WALK
           \<or> status (safetyResets x z l r p) = DASH
           \<or> status (safetyResets x z l r p) = DASHEND
           \<or> isAttacking (safetyResets x z l r p)"
  using assms by (cases x; cases z; cases "isDashing p"; simp add: safety_defs)+

text \<open>
  Claim C7. Running the safety-reset pass a second time with the same input snapshot
  changes no field of the entity: the pass is idempotent (grounded or not).
\<close>

theorem safety_pass_idempotent:
  "safetyResets x z l r (safetyResets x z l r p) = safetyResets x z l r p"
proof (cases "isOnGround p")
  case True
  show ?thesis
    by (rule safetyResets_fix) (rule safetyResets_settled [OF True])+
next
  case False
  then show ?thesis by (simp add: safetyResets_def)
qed

theorem safety_pass_idempotent_witness:
  "safetyResets False False False False
     (safetyResets False False False False
        (newPlayer\<lparr>status := JUMPDOWN, isDashing := True, jumpKeyWasPressed := True\<rparr>))
   = safetyResets False False False False
       (newPlayer\<lparr>status := JUMPDOWN, isDashing := True, jumpKeyWasPressed := True\<rparr>)
   \<and> status (safetyResets False False False False
        (newPlayer\<lparr>status := JUMPDOWN, isDashing := True, jumpKeyWasPressed := True\<rparr>)) = IDLE"
  using safety_pass_idempotent
    [of False False False False
        "newPlayer\<lparr>status := JUMPDOWN, isDashing := True, jumpKeyWasPressed := True\<rparr>"]
  by (simp add: newPlayer_def safety_defs)

section \<open>Camera scroll\<close>

text \<open>
  Claim C10. A call \<open>updateScroll scrollDelta\<close> adds \<open>scrollDelta\<close> to the x component of
  the shared scroll offset when the player's x lies strictly between 400 and 1200, and
  leaves y and z as they are; for any other x the whole offset is unchanged. The same
  window therefore governs the walking, air-control, dash and super-jump motion, which
  reach the scroll offset through \<open>updateScroll\<close> after moving the player.
\<close>

theorem updateScroll_window:
  "(400 < posx p \<and> posx p < 1200 \<longrightarrow>
      vx (scrollOf (updateScroll d p)) = vx (scrollOf p) + d
      \<and> vy (scrollOf (updateScroll d p)) = vy (scrollOf p)
      \<and> vz (scrollOf (updateScroll d p)) = vz (scrollOf p))
   \<and> (\<not> (400 < posx p \<and> posx p < 1200) \<longrightarrow> scrollOf (updateScroll d p) = scrollOf p)
   \<and> (\<not> (400 < posx (handleWalking lk rk dt p) \<and> posx (handleWalking lk rk dt p) < 1200)
        \<longrightarrow> scrollOf (handleWalking lk rk dt p) = scrollOf p)
   \<and> (\<not> (400 < posx (handleAirMovement lk rk dt p)
          \<and> posx (handleAirMovement lk rk dt p) < 1200)
        \<longrightarrow> scrollOf (handleAirMovement lk rk dt p) = scrollOf p)
   \<and> (\<not> (400 < posx (dashMoving keys dt p) \<and> posx (dashMoving keys dt p) < 1200)
        \<longrightarrow> scrollOf (dashMoving keys dt p) = scrollOf p)
   \<and> (\<not> (400 < posx (superJumpPhysics dt p) \<and> posx (superJumpPhysics dt p) < 1200)
        \<longrightarrow> scrollOf (superJumpPhysics dt p) = scrollOf p)"
proof -
  have us: "\<And>e q. posx (updateScroll e q) = posx q"
    by (simp add: updateScroll_def Let_def)
  have out: "updateScroll e q = q" if "\<not> (400 < posx q \<and> posx q < 1200)" for e q
    using that by (auto simp add: updateScroll_def)
  have a: "400 < posx p \<and> posx p < 1200 \<longrightarrow>
      vx (scrollOf (updateScroll d p)) = vx (scrollOf p) + d
      \<and> vy (scrollOf (updateScroll d p)) = vy (scrollOf p)
      \<and> vz (scrollOf (updateScroll d p)) = vz (scrollOf p)"
    by (simp add: updateScroll_def getScrollOffset_def setScrollOffset_def Let_def)
  have b: "\<not> (400 < posx p \<and> posx p < 1200) \<longrightarrow> scrollOf (updateScroll d p) = scrollOf p"
    by (auto simp add: updateScroll_def)
  have c: "\<not> (400 < posx (handleWalking lk rk dt p) \<and> posx (handleWalking lk rk dt p) < 1200)
        \<longrightarrow> scrollOf (handleWalking lk rk dt p) = scrollOf p"
    by (cases lk; cases rk) (auto simp add: handleWalking_def us out)
  have d: "\<not> (400 < posx (handleAirMovement lk rk dt p)
          \<and> posx (handleAirMovement lk rk dt p) < 1200)
        \<longrightarrow> scrollOf (handleAirMovement lk rk dt p) = scrollOf p"
    by (cases lk; cases rk) (auto simp add: handleAirMovement_def Let_def us out)
  have e: "\<not> (400 < posx (dashMoving keys dt p) \<and> posx (dashMoving keys dt p) < 1200)
        \<longrightarrow> scrollOf (dashMoving keys dt p) = scrollOf p"
    by (cases "canChangeDashDirection p"; cases "isKeyDown keys ''LEFT''";
        cases "isKeyDown keys ''RIGHT''"; cases "dashDirection p = RIGHT")
       (auto simp add: dashMoving_def Let_def us out)
  have f: "\<not> (400 < posx (superJumpPhysics dt p) \<and> posx (superJumpPhysics dt p) < 1200)
        \<longrightarrow> scrollOf (superJumpPhysics dt p) = scrollOf p"
    by (cases "isSuperJumping p") (auto simp add: superJumpPhysics_def Let_def us out)
  from a b c d e f show ?thesis by blast
qed

theorem updateScroll_window_witness:
  "400 < posx (newPlayer\<lparr>posx := 500\<rparr>) \<and> posx (newPlayer\<lparr>posx := 500\<rparr>) < 1200
   \<and> vx (scrollOf (updateScroll 3 (newPlayer\<lparr>posx := 500\<rparr>))) = - 597
   \<and> vy (scrollOf (updateScroll 3 (newPlayer\<lparr>posx := 500\<rparr>))) = 30
   \<and> vz (scrollOf (updateScroll 3 (newPlayer\<lparr>posx := 500\<rparr>))) = 0
   \<and> \<not> (400 < posx newPlayer \<and> posx newPlayer < 1200)
   \<and> scrollOf (updateScroll 3 newPlayer) = scrollOf newPlayer"
  using updateScroll_window [of "newPlayer\<lparr>posx := 500\<rparr>" 3]
    updateScroll_window [of newPlayer 3]
  by (simp add: newPlayer_def newObjectSortManager_def initializeLayers_def)

section \<open>Layer scheduler: render order\<close>

lemma renderLayer_filter:
  "renderLayer store xs =
     filter (\<lambda>obj. visible (store obj) \<and> \<not> isDestroyed (store obj)) xs"
  by (induction xs) simp_all

lemma renderLayers_concat:
  "renderLayers store ls = concat (map (renderLayer store) ls)"
  by (induction ls) simp_all

lemma insertObject_layers:
  assumes "initialized m"
  shows "initialized (snd (insertObject store obj m))"
    and "length (objectLayers (snd (insertObject store obj m))) = length (objectLayers m)"
    and "i < length (objectLayers m) \<Longrightarrow>
         objectLayers (snd (insertObject store obj m)) ! i =
           objectLayers m ! i @ (if getSortID (store obj) = int i then [obj] else [])"
  using assms
  by (auto simp add: insertObject_def addSortedObject_def Let_def nth_list_update)

text \<open>
  After a sequence of insertions, layer \<open>i\<close> holds what it held before followed by the
  inserted objects whose sort id is \<open>i\<close>, in insertion order.
\<close>

lemma insertAll_layers:
  assumes "initialized m"
  shows "initialized (insertAll store ids m)
     \<and> length (objectLayers (insertAll store ids m)) = length (objectLayers m)
     \<and> (\<forall>i < length (objectLayers m).
          objectLayers (insertAll store ids m) ! i =
            objectLayers m ! i @ filter (\<lambda>obj. getSortID (store obj) = int i) ids)"
  using assms
proof (induction ids arbitrary: m)
  case Nil
  then show ?case by simp
next
  case (Cons obj rest)
  let ?m' = "snd (insertObject store obj m)"
  have s1: "initialized ?m'" and s2: "length (objectLayers ?m') = length (objectLayers m)"
    and s3: "\<And>i. i < length (objectLayers m) \<Longrightarrow>
         objectLayers ?m' ! i =
           objectLayers m ! i @ (if getSortID (store obj) = int i then [obj] else [])"
    using insertObject_layers [OF Cons.prems] by blast+
  from Cons.IH [OF s1] s2 s3 show ?case by simp
qed

lemma newObjectSortManager_layers:
  "initialized newObjectSortManager" "objectLayers newObjectSortManager = replicate 20 []"
  by (simp_all add: newObjectSortManager_def initializeLayers_def)

lemma renderObjects_insertAll:
  "renderObjects store (insertAll store ids newObjectSortManager) =
     concat (map (\<lambda>i. filter (\<lambda>obj. getSortID (store obj) = int i \<and> visible (store obj)
                                      \<and> \<not> isDestroyed (store obj)) ids) [0..<20])"
proof -
  let ?m = "insertAll store ids newObjectSortManager"
  note L = insertAll_layers [OF newObjectSortManager_layers(1), of store ids]
  have len: "length (objectLayers ?m) = 20"
    using L by (simp add: newObjectSortManager_layers)
  have "objectLayers ?m = map (\<lambda>i. filter (\<lambda>obj. getSortID (store obj) = int i) ids) [0..<20]"
    using L len by (intro nth_equalityI) (simp_all add: newObjectSortManager_layers)
  then show ?thesis
    using L
    by (simp add: renderObjects_def renderLayers_concat renderLayer_filter comp_def
        conj_commute conj_left_commute cong: conj_cong)
qed

text \<open>
  Claim C8. Rendering after inserting the objects \<open>ids\<close> (in that order) into a fresh
  scheduler invokes \<open>render\<close> layer by layer in ascending layer index, within a layer
  in insertion order, and only on objects that are visible and not destroyed. In
  particular three visible, live objects with layers 2, 0, 2 are visited as: the layer-0
  object, then the two layer-2 objects in insertion order.
\<close>

theorem render_order:
  "renderObjects store (insertAll store ids newObjectSortManager) =
     concat (map (\<lambda>i. filter (\<lambda>obj. getSortID (store obj) = int i \<and> visible (store obj)
                                      \<and> \<not> isDestroyed (store obj)) ids) [0..<20])
   \<and> (sortID (store a) = 2 \<and> sortID (store b) = 0 \<and> sortID (store c) = 2
       \<and> (\<forall>obj \<in> {a, b, c}. visible (store obj) \<and> \<not> destroyed (store obj))
       \<longrightarrow> renderObjects store (insertAll store [a, b, c] newObjectSortManager) = [b, a, c])"
proof
  show "renderObjects store (insertAll store ids newObjectSortManager) =
     concat (map (\<lambda>i. filter (\<lambda>obj. getSortID (store obj) = int i \<and> visible (store obj)
                                      \<and> \<not> isDestroyed (store obj)) ids) [0..<20])"
    by (rule renderObjects_insertAll)
  show "sortID (store a) = 2 \<and> sortID (store b) = 0 \<and> sortID (store c) = 2
       \<and> (\<forall>obj \<in> {a, b, c}. visible (store obj) \<and> \<not> destroyed (store obj))
       \<longrightarrow> renderObjects store (insertAll store [a, b, c] newObjectSortManager) = [b, a, c]"
    apply (simp only: renderObjects_insertAll)
    apply (simp add: getSortID_def isDestroyed_def upt_rec [of _ "numeral _"] upt_rec [of 0])
    done
qed

theorem render_order_witness:
  "renderObjects
     (\<lambda>n. \<lparr>sortID = (if n = Suc 0 then 0 else 2), visible = True, active = True,
            destroyed = False\<rparr>)
     (insertAll
        (\<lambda>n. \<lparr>sortID = (if n = Suc 0 then 0 else 2), visible = True, active = True,
               destroyed = False\<rparr>)
        [0, Suc 0, 2] newObjectSortManager)
   = [Suc 0, 0, 2]"
  using render_order
    [of "\<lambda>n. \<lparr>sortID = (if n = Suc 0 then 0 else 2), visible = True, active = True,
               destroyed = False\<rparr>" "[]" 0 "Suc 0" 2]
  by simp

section \<open>Dash motion\<close>

text \<open>\<^verbatim>\<open>updateScroll\<close> writes the scroll offset only.\<close>

lemma updateScroll_fields:
  "sortID (updateScroll e q) = sortID q"
  "visible (updateScroll e q) = visible q"
  "active (updateScroll e q) = active q"
  "destroyed (updateScroll e q) = destroyed q"
  "status (updateScroll e q) = status q"
  "direction (updateScroll e q) = direction q"
  "positionStation (updateScroll e q) = positionStation q"
  "posx (updateScroll e q) = posx q"
  "posy (updateScroll e q) = posy q"
  "maxYPosition (updateScroll e q) = maxYPosition q"
  "speed (updateScroll e q) = speed q"
  "highSpeed (updateScroll e q) = highSpeed q"
  "jumpPower (updateScroll e q) = jumpPower q"
  "angle (updateScroll e q) = angle q"
  "velocityX (updateScroll e q) = velocityX q"
  "velocityY (updateScroll e q) = velocityY q"
  "gravity (updateScroll e q) = gravity q"
  "maxFallSpeed (updateScroll e q) = maxFallSpeed q"
  "isOnGround (updateScroll e q) = isOnGround q"
  "canJump (updateScroll e q) = canJump q"
  "jumpKeyWasPressed (updateScroll e q) = jumpKeyWasPressed q"
  "dashKeyWasPressed (updateScroll e q) = dashKeyWasPressed q"
  "isDashing (updateScroll e q) = isDashing q"
  "dashDistance (updateScroll e q) = dashDistance q"
  "dashSpeed (updateScroll e q) = dashSpeed q"
  "dashProgress (updateScroll e q) = dashProgress q"
  "dashPhase (updateScroll e q) = dashPhase q"
  "canDashAgain (updateScroll e q) = canDashAgain q"
  "dashDirection (updateScroll e q) = dashDirection q"
  "canChangeDashDirection (updateScroll e q) = canChangeDashDirection q"
  "startAcceleration (updateScroll e q) = startAcceleration q"
  "endDeceleration (updateScroll e q) = endDeceleration q"
  "attackTimer (updateScroll e q) = attackTimer q"
  "maxAttackDuration (updateScroll e q) = maxAttackDuration q"
  "isSuperJumping (updateScroll e q) = isSuperJumping q"
  "superJumpVelocityX (updateScroll e q) = superJumpVelocityX q"
  "superJumpMultiplier (updateScroll e q) = superJumpMultiplier q"
  "currentAnimation (updateScroll e q) = currentAnimation q"
  "animationFrame (updateScroll e q) = animationFrame q"
  "frameTime (updateScroll e q) = frameTime q"
  "isControlEnabled (updateScroll e q) = isControlEnabled q"
  "isGrounded (updateScroll e q) = isGrounded q"
  "jumpStart (updateScroll e q) = jumpStart q"
  "jumpDown (updateScroll e q) = jumpDown q"
  by (simp_all add: updateScroll_def Let_def)







section \<open>Frame conditions of the stages\<close>

text \<open>
  Which of the fields the later statements depend on each block of \<^verbatim>\<open>checkInput\<close>,
  \<^verbatim>\<open>updatePhysics\<close> and \<^verbatim>\<open>updateAnimation\<close> leaves untouched.
\<close>

lemma constantsOf_updates:
  "constantsOf (p\<lparr>sortID := vsortID\<rparr>) = constantsOf p"
  "constantsOf (p\<lparr>visible := vvisible\<rparr>) = constantsOf p"
  "constantsOf (p\<lparr>status := vstatus\<rparr>) = constantsOf p"
  "constantsOf (p\<lparr>direction := vdirection\<rparr>) = constantsOf p"
  "constantsOf (p\<lparr>positionStation := vpositionStation\<rparr>) = constantsOf p"
  "constantsOf (p\<lparr>posx := vposx\<rparr>) = constantsOf p"
  "constantsOf (p\<lparr>posy := vposy\<rparr>) = constantsOf p"
  "constantsOf (p\<lparr>angle := vangle\<rparr>) = constantsOf p"
  "constantsOf (p\<lparr>velocityX := vvelocityX\<rparr>) = constantsOf p"
  "constantsOf (p\<lparr>velocityY := vvelocityY\<rparr>) = constantsOf p"
  "constantsOf (p\<lparr>isOnGround := visOnGround\<rparr>) = constantsOf p"
  "constantsOf (p\<lparr>canJump := vcanJump\<rparr>) = constantsOf p"
  "constantsOf (p\<lparr>jumpKeyWasPressed := vjumpKeyWasPressed\<rparr>) = constantsOf p"
  "constantsOf (p\<lparr>dashKeyWasPressed := vdashKeyWasPressed\<rparr>) = constantsOf p"
  "constantsOf (p\<lparr>isDashing := visDashing\<rparr>) = constantsOf p"
  "constantsOf (p\<lparr>dashProgress := vdashProgress\<rparr>) = constantsOf p"
  "constantsOf (p\<lparr>dashPhase := vdashPhase\<rparr>) = constantsOf p"
  "constantsOf (p\<lparr>canDashAgain := vcanDashAgain\<rparr>) = constantsOf p"
  "constantsOf (p\<lparr>dashDirection := vdashDirection\<rparr>) = constantsOf p"
  "constantsOf (p\<lparr>attackTimer := vattackTimer\<rparr>) = constantsOf p"
  "constantsOf (p\<lparr>isSuperJumping := visSuperJumping\<rparr>) = constantsOf p"
  "constantsOf (p\<lparr>currentAnimation := vcurrentAnimation\<rparr>) = constantsOf p"
  "constantsOf (p\<lparr>animationFrame := vanimationFrame\<rparr>) = constantsOf p"
  "constantsOf (p\<lparr>frameTime := vframeTime\<rparr>) = constantsOf p"
  "constantsOf (p\<lparr>isGrounded := visGrounded\<rparr>) = constantsOf p"
  "constantsOf (p\<lparr>jumpStart := vjumpStart\<rparr>) = constantsOf p"
  "constantsOf (p\<lparr>jumpDown := vjumpDown\<rparr>) = constantsOf p"
  "constantsOf (p\<lparr>objectSortManager := vobjectSortManager\<rparr>) = constantsOf p"
  by (simp_all add: constantsOf_def)

lemma updateScroll_constantsOf:
  "constantsOf (updateScroll e p) = constantsOf p"
  by (simp_all add: updateScroll_def Let_def constantsOf_updates)

lemma groundDetection_fields:
  "constantsOf (groundDetection p) = constantsOf p"
  "posy (groundDetection p) = posy p"
  "velocityY (groundDetection p) = velocityY p"
  "status (groundDetection p) = status p"
  "jumpKeyWasPressed (groundDetection p) = jumpKeyWasPressed p"
  "canJump (groundDetection p) = canJump p"
  by (simp_all add: groundDetection_def Let_def constantsOf_updates updateScroll_fields updateScroll_constantsOf)

lemma resetKeyTracking_fields:
  "constantsOf (resetKeyTracking x z p) = constantsOf p"
  "posy (resetKeyTracking x z p) = posy p"
  "velocityY (resetKeyTracking x z p) = velocityY p"
  "status (resetKeyTracking x z p) = status p"
  "isOnGround (resetKeyTracking x z p) = isOnGround p"
  by (simp_all add: resetKeyTracking_def Let_def constantsOf_updates updateScroll_fields updateScroll_constantsOf)

lemma handleWalking_fields:
  "constantsOf (handleWalking l r dt p) = constantsOf p"
  "posy (handleWalking l r dt p) = posy p"
  "velocityY (handleWalking l r dt p) = velocityY p"
  "isOnGround (handleWalking l r dt p) = isOnGround p"
  "jumpKeyWasPressed (handleWalking l r dt p) = jumpKeyWasPressed p"
  "canJump (handleWalking l r dt p) = canJump p"
  by (simp_all add: handleWalking_def Let_def constantsOf_updates updateScroll_fields updateScroll_constantsOf)

lemma handleAirMovement_fields:
  "constantsOf (handleAirMovement l r dt p) = constantsOf p"
  "posy (handleAirMovement l r dt p) = posy p"
  "velocityY (handleAirMovement l r dt p) = velocityY p"
  "isOnGround (handleAirMovement l r dt p) = isOnGround p"
  "status (handleAirMovement l r dt p) = status p"
  "jumpKeyWasPressed (handleAirMovement l r dt p) = jumpKeyWasPressed p"
  "canJump (handleAirMovement l r dt p) = canJump p"
  by (simp_all add: handleAirMovement_def Let_def constantsOf_updates updateScroll_fields updateScroll_constantsOf)

lemma jumpStartAscent_fields:
  "constantsOf (jumpStartAscent x dt p) = constantsOf p"
  "velocityY (jumpStartAscent x dt p) = velocityY p"
  "isOnGround (jumpStartAscent x dt p) = isOnGround p"
  "jumpKeyWasPressed (jumpStartAscent x dt p) = jumpKeyWasPressed p"
  "canJump (jumpStartAscent x dt p) = canJump p"
  by (simp_all add: jumpStartAscent_def Let_def constantsOf_updates updateScroll_fields updateScroll_constantsOf)

lemma attackCase_fields:
  "constantsOf (attackCase dt p) = constantsOf p"
  "posy (attackCase dt p) = posy p"
  "velocityY (attackCase dt p) = velocityY p"
  "isOnGround (attackCase dt p) = isOnGround p"
  "jumpKeyWasPressed (attackCase dt p) = jumpKeyWasPressed p"
  "canJump (attackCase dt p) = canJump p"
  by (simp_all add: attackCase_def Let_def constantsOf_updates updateScroll_fields updateScroll_constantsOf)

lemma safetyResets_fields:
  "constantsOf (safetyResets x z l r p) = constantsOf p"
  "posy (safetyResets x z l r p) = posy p"
  "velocityY (safetyResets x z l r p) = velocityY p"
  "isOnGround (safetyResets x z l r p) = isOnGround p"
  by (simp_all add: safetyResets_def safetyForceIdle_def safetyStuckDash_def safetyDashKey_def safetyJumpKey_def Let_def constantsOf_updates updateScroll_fields updateScroll_constantsOf)

lemma applyGravity_fields:
  "constantsOf (applyGravity dt p) = constantsOf p"
  "posy (applyGravity dt p) = posy p"
  "isOnGround (applyGravity dt p) = isOnGround p"
  "status (applyGravity dt p) = status p"
  "jumpKeyWasPressed (applyGravity dt p) = jumpKeyWasPressed p"
  "canJump (applyGravity dt p) = canJump p"
  by (simp_all add: applyGravity_def Let_def constantsOf_updates updateScroll_fields updateScroll_constantsOf)

lemma superJumpPhysics_fields:
  "constantsOf (superJumpPhysics dt p) = constantsOf p"
  "posy (superJumpPhysics dt p) = posy p"
  "velocityY (superJumpPhysics dt p) = velocityY p"
  "isOnGround (superJumpPhysics dt p) = isOnGround p"
  "status (superJumpPhysics dt p) = status p"
  "jumpKeyWasPressed (superJumpPhysics dt p) = jumpKeyWasPressed p"
  "canJump (superJumpPhysics dt p) = canJump p"
  by (simp_all add: superJumpPhysics_def Let_def constantsOf_updates updateScroll_fields updateScroll_constantsOf)

lemma dashMoving_fields:
  "constantsOf (dashMoving keys dt p) = constantsOf p"
  "posy (dashMoving keys dt p) = posy p"
  "velocityY (dashMoving keys dt p) = velocityY p"
  "isOnGround (dashMoving keys dt p) = isOnGround p"
  "jumpKeyWasPressed (dashMoving keys dt p) = jumpKeyWasPressed p"
  "canJump (dashMoving keys dt p) = canJump p"
  by (simp_all add: dashMoving_def Let_def constantsOf_updates updateScroll_fields updateScroll_constantsOf)

lemma statePhysics_fields:
  "constantsOf (statePhysics keys dt p) = constantsOf p"
  "posy (statePhysics keys dt p) = posy p"
  "velocityY (statePhysics keys dt p) = velocityY p"
  "isOnGround (statePhysics keys dt p) = isOnGround p"
  "jumpKeyWasPressed (statePhysics keys dt p) = jumpKeyWasPressed p"
  "canJump (statePhysics keys dt p) = canJump p"
  by (simp_all add: statePhysics_def dashMoving_fields Let_def constantsOf_updates updateScroll_fields updateScroll_constantsOf split: STATUS.splits)

lemma applyVelocities_fields:
  "constantsOf (applyVelocities dt p) = constantsOf p"
  "velocityY (applyVelocities dt p) = velocityY p"
  "isOnGround (applyVelocities dt p) = isOnGround p"
  "status (applyVelocities dt p) = status p"
  "jumpKeyWasPressed (applyVelocities dt p) = jumpKeyWasPressed p"
  "canJump (applyVelocities dt p) = canJump p"
  by (simp_all add: applyVelocities_def Let_def constantsOf_updates updateScroll_fields updateScroll_constantsOf)

lemma groundCollision_fields:
  "constantsOf (groundCollision p) = constantsOf p"
  "jumpKeyWasPressed (groundCollision p) = jumpKeyWasPressed p"
  by (simp_all add: groundCollision_def Let_def constantsOf_updates updateScroll_fields updateScroll_constantsOf)

lemma screenBoundaries_fields:
  "constantsOf (screenBoundaries p) = constantsOf p"
  "posy (screenBoundaries p) = posy p"
  "velocityY (screenBoundaries p) = velocityY p"
  "isOnGround (screenBoundaries p) = isOnGround p"
  "status (screenBoundaries p) = status p"
  "jumpKeyWasPressed (screenBoundaries p) = jumpKeyWasPressed p"
  "canJump (screenBoundaries p) = canJump p"
  by (simp_all add: screenBoundaries_def Let_def constantsOf_updates updateScroll_fields updateScroll_constantsOf)

lemma changeAnimation_fields:
  "constantsOf (changeAnimation a p) = constantsOf p"
  "posy (changeAnimation a p) = posy p"
  "velocityY (changeAnimation a p) = velocityY p"
  "isOnGround (changeAnimation a p) = isOnGround p"
  "status (changeAnimation a p) = status p"
  "jumpKeyWasPressed (changeAnimation a p) = jumpKeyWasPressed p"
  "canJump (changeAnimation a p) = canJump p"
  by (simp_all add: changeAnimation_def Let_def constantsOf_updates updateScroll_fields updateScroll_constantsOf)

lemma animationCompleted_fields:
  "constantsOf (animationCompleted keys p) = constantsOf p"
  "posy (animationCompleted keys p) = posy p"
  "velocityY (animationCompleted keys p) = velocityY p"
  "isOnGround (animationCompleted keys p) = isOnGround p"
  "jumpKeyWasPressed (animationCompleted keys p) = jumpKeyWasPressed p"
  "canJump (animationCompleted keys p) = canJump p"
  by (simp_all add: animationCompleted_def Let_def constantsOf_updates updateScroll_fields updateScroll_constantsOf)

section \<open>Summary of the physics update\<close>

lemma constantsOf_fields:
  assumes "constantsOf q = constantsOf p"
  shows "maxYPosition q = maxYPosition p" "speed q = speed p" "highSpeed q = highSpeed p"
    "jumpPower q = jumpPower p" "gravity q = gravity p" "maxFallSpeed q = maxFallSpeed p"
    "dashDistance q = dashDistance p" "dashSpeed q = dashSpeed p"
    "canChangeDashDirection q = canChangeDashDirection p"
    "startAcceleration q = startAcceleration p" "endDeceleration q = endDeceleration p"
    "maxAttackDuration q = maxAttackDuration p" "superJumpVelocityX q = superJumpVelocityX p"
    "superJumpMultiplier q = superJumpMultiplier p" "isControlEnabled q = isControlEnabled p"
    "active q = active p" "destroyed q = destroyed p"
  using assms by (simp_all add: constantsOf_def)

lemma groundCollision_effect:
  "posy (groundCollision p) = (if posy p \<ge> maxYPosition p then maxYPosition p else posy p)"
  "velocityY (groundCollision p) = (if posy p \<ge> maxYPosition p then 0 else velocityY p)"
  "isOnGround (groundCollision p) = (posy p \<ge> maxYPosition p)"
  "canJump (groundCollision p) =
     (if posy p \<ge> maxYPosition p \<and> \<not> jumpKeyWasPressed p then True else canJump p)"
  "status (groundCollision p) =
     (if posy p \<ge> maxYPosition p then
        (if (status p = JUMPSTART \<or> status p = JUMPDOWN) \<and> \<not> isDashing p then IDLE
         else status p)
      else (if velocityY p > 0 \<and> status p = JUMPSTART then JUMPDOWN else status p))"
  by (simp_all add: groundCollision_def Let_def)

lemma applyGravity_velocityY:
  "velocityY (applyGravity dt p) =
     (if isOnGround p then velocityY p
      else min (velocityY p + gravity p * dt) (maxFallSpeed p))"
  by (simp add: applyGravity_def Let_def min_def)

lemma applyVelocities_posy:
  "posy (applyVelocities dt p) = posy p + velocityY p * dt"
  by (simp add: applyVelocities_def)

lemma dashMoving_status:
  "status (dashMoving keys dt p) = status p \<or> status (dashMoving keys dt p) = DASHEND"
  by (simp add: dashMoving_def Let_def updateScroll_fields)

lemma statePhysics_status:
  "status (statePhysics keys dt p) = status p
   \<or> (status p = DASH \<and> status (statePhysics keys dt p) = DASHEND)"
  using dashMoving_status [of keys dt p]
  by (auto simp add: statePhysics_def split: STATUS.splits)

lemmas physics_fields = applyGravity_fields superJumpPhysics_fields statePhysics_fields
  applyVelocities_fields groundCollision_fields screenBoundaries_fields

lemma updatePhysics_fields:
  "constantsOf (updatePhysics keys dt p) = constantsOf p"
  "jumpKeyWasPressed (updatePhysics keys dt p) = jumpKeyWasPressed p"
  by (simp_all add: updatePhysics_def physics_fields)

lemmas updatePhysics_constants = constantsOf_fields [OF updatePhysics_fields(1)]

lemma updatePhysics_post:
  "posy (updatePhysics keys dt p) \<le> maxYPosition p"
  "isOnGround (updatePhysics keys dt p) \<longleftrightarrow> posy (updatePhysics keys dt p) = maxYPosition p"
  "posy (updatePhysics keys dt p) = maxYPosition p \<longrightarrow> velocityY (updatePhysics keys dt p) = 0"
  by (simp_all add: updatePhysics_def physics_fields groundCollision_effect
      constantsOf_fields [OF applyVelocities_fields(1)]
      constantsOf_fields [OF statePhysics_fields(1)]
      constantsOf_fields [OF superJumpPhysics_fields(1)]
      constantsOf_fields [OF applyGravity_fields(1)])

lemma updatePhysics_velocityY:
  assumes "0 \<le> maxFallSpeed p" "velocityY p \<le> maxFallSpeed p \<or> \<not> isOnGround p"
  shows "velocityY (updatePhysics keys dt p) \<le> maxFallSpeed p"
  using assms
  by (auto simp add: updatePhysics_def physics_fields groundCollision_effect
      applyGravity_velocityY)

lemma updatePhysics_status:
  "status (updatePhysics keys dt p) = JUMPSTART \<longrightarrow> status p = JUMPSTART"
  "status (updatePhysics keys dt p) = A1 \<longrightarrow> status p = A1"
  "status (updatePhysics keys dt p) = FIREATTACK \<longrightarrow> status p = FIREATTACK"
  using statePhysics_status [of keys dt "superJumpPhysics dt (applyGravity dt p)"]
  by (auto simp add: updatePhysics_def physics_fields groundCollision_effect split: if_splits)

lemma updatePhysics_grounded:
  assumes "isOnGround p" "posy p \<ge> maxYPosition p" "velocityY p = 0"
  shows "posy (updatePhysics keys dt p) = maxYPosition p"
  using assms
  by (simp add: updatePhysics_def physics_fields groundCollision_effect
      applyGravity_velocityY applyVelocities_posy
      constantsOf_fields [OF applyVelocities_fields(1)]
      constantsOf_fields [OF statePhysics_fields(1)]
      constantsOf_fields [OF superJumpPhysics_fields(1)]
      constantsOf_fields [OF applyGravity_fields(1)])

lemma updatePhysics_canJump:
  assumes "\<not> jumpKeyWasPressed p" "isOnGround (updatePhysics keys dt p)"
  shows "canJump (updatePhysics keys dt p)"
  using assms
  by (simp add: updatePhysics_def physics_fields groundCollision_effect)

section \<open>Summary of the animation update\<close>

lemma animationCompleted_status:
  "status (animationCompleted keys p) = status p
   \<or> status (animationCompleted keys p) = IDLE
   \<or> (status (animationCompleted keys p) = JUMPDOWN \<and> status p = JUMPATTACK)"
  by (simp add: animationCompleted_def Let_def)

lemma updateAnimation_fields:
  "constantsOf (updateAnimation keys dt p) = constantsOf p"
  "posy (updateAnimation keys dt p) = posy p"
  "velocityY (updateAnimation keys dt p) = velocityY p"
  "isOnGround (updateAnimation keys dt p) = isOnGround p"
  "jumpKeyWasPressed (updateAnimation keys dt p) = jumpKeyWasPressed p"
  "canJump (updateAnimation keys dt p) = canJump p"
  by (simp_all add: updateAnimation_def Let_def changeAnimation_fields
      animationCompleted_fields constantsOf_updates)

lemma updateAnimation_status:
  "status (updateAnimation keys dt p) = status p
   \<or> status (updateAnimation keys dt p) = IDLE
   \<or> (status (updateAnimation keys dt p) = JUMPDOWN \<and> status p = JUMPATTACK)"
proof -
  have "\<And>q. status q = status p \<Longrightarrow>
     status (animationCompleted keys q) = status p
     \<or> status (animationCompleted keys q) = IDLE
     \<or> (status (animationCompleted keys q) = JUMPDOWN \<and> status p = JUMPATTACK)"
    using animationCompleted_status by metis
  then show ?thesis
    by (simp add: updateAnimation_def Let_def changeAnimation_fields)
qed

section \<open>The input stage, status by status\<close>

lemma inputPre_fields:
  "constantsOf (inputPre keys p) = constantsOf p"
  "posy (inputPre keys p) = posy p"
  "velocityY (inputPre keys p) = velocityY p"
  "status (inputPre keys p) = status p"
  "isOnGround (inputPre keys p) = (posy p \<ge> maxYPosition p)"
  "jumpKeyWasPressed (inputPre keys p) = (isKeyDown keys ''X'' \<and> jumpKeyWasPressed p)"
  "canJump (inputPre keys p) =
     (if \<not> isKeyDown keys ''X'' \<and> posy p \<ge> maxYPosition p then True else canJump p)"
  "direction (inputPre keys p) = direction p"
  "canDashAgain (inputPre keys p) = canDashAgain p"
  "attackTimer (inputPre keys p) = attackTimer p"
  "superJumpMultiplier (inputPre keys p) = superJumpMultiplier p"
  "superJumpVelocityX (inputPre keys p) = superJumpVelocityX p"
  "jumpPower (inputPre keys p) = jumpPower p"
  "maxAttackDuration (inputPre keys p) = maxAttackDuration p"
  "dashPhase (inputPre keys p) = dashPhase p"
  "isSuperJumping (inputPre keys p) = isSuperJumping p"
  by (simp_all add: inputPre_def resetKeyTracking_def groundDetection_def Let_def
      constantsOf_updates)

lemma inputPre_dash:
  "isDashing (inputPre keys p) =
     (if posy p \<ge> maxYPosition p \<and> status p = JUMPDOWN then False else isDashing p)"
  "dashKeyWasPressed (inputPre keys p) =
     (if \<not> isKeyDown keys ''Z'' \<and> \<not> isDashing (inputPre keys p) then False
      else dashKeyWasPressed p)"
  by (auto simp add: inputPre_def resetKeyTracking_def groundDetection_def Let_def)

lemma checkInput_stateMachine:
  assumes "isControlEnabled p"
  shows "checkInput keys tm p =
      (case stateMachine (isKeyDown keys ''X'') (isKeyDown keys ''Z'') (isKeyDown keys ''LEFT'')
              (isKeyDown keys ''RIGHT'') (isKeyDown keys ''C'') (isKeyDown keys ''V'')
              (getTime tm) (inputPre keys p) of
         Return p3 \<Rightarrow> p3
       | Continue p3 \<Rightarrow>
           safetyResets (isKeyDown keys ''X'') (isKeyDown keys ''Z'') (isKeyDown keys ''LEFT'')
             (isKeyDown keys ''RIGHT'') p3)"
  using assms unfolding checkInput_def Let_def inputPre_def by simp

lemma checkInput_idleWalk:
  assumes "isControlEnabled p" "status p = IDLE \<or> status p = WALK"
  shows "checkInput keys tm p =
     (if isKeyDown keys ''C'' \<and> isOnGround (inputPre keys p) then basicAttack (inputPre keys p)
      else if isKeyDown keys ''V'' \<and> isOnGround (inputPre keys p)
        then fireAttack (inputPre keys p)
      else if isKeyDown keys ''X'' \<and> isKeyDown keys ''Z''
              \<and> \<not> jumpKeyWasPressed (inputPre keys p)
              \<and> \<not> dashKeyWasPressed (inputPre keys p) \<and> isOnGround (inputPre keys p)
              \<and> canJump (inputPre keys p) \<and> canDashAgain (inputPre keys p)
        then superJump (inputPre keys p)
      else if isKeyDown keys ''X'' \<and> \<not> jumpKeyWasPressed (inputPre keys p)
              \<and> isOnGround (inputPre keys p) \<and> canJump (inputPre keys p)
        then regularJump (inputPre keys p)
      else if isKeyDown keys ''Z'' \<and> \<not> dashKeyWasPressed (inputPre keys p)
              \<and> isOnGround (inputPre keys p) \<and> \<not> isDashing (inputPre keys p)
              \<and> canDashAgain (inputPre keys p)
        then startDash (isKeyDown keys ''LEFT'') (isKeyDown keys ''RIGHT'') (inputPre keys p)
      else safetyResets (isKeyDown keys ''X'') (isKeyDown keys ''Z'') (isKeyDown keys ''LEFT'')
             (isKeyDown keys ''RIGHT'')
             (handleWalking (isKeyDown keys ''LEFT'') (isKeyDown keys ''RIGHT'') (getTime tm)
                (inputPre keys p)))"
proof -
  have "stateMachine (isKeyDown keys ''X'') (isKeyDown keys ''Z'') (isKeyDown keys ''LEFT'')
              (isKeyDown keys ''RIGHT'') (isKeyDown keys ''C'') (isKeyDown keys ''V'')
              (getTime tm) (inputPre keys p)
        = idleWalkCase (isKeyDown keys ''X'') (isKeyDown keys ''Z'') (isKeyDown keys ''LEFT'')
              (isKeyDown keys ''RIGHT'') (isKeyDown keys ''C'') (isKeyDown keys ''V'')
              (getTime tm) (inputPre keys p)"
    using assms(2) by (auto simp add: stateMachine_def inputPre_fields)
  then show ?thesis
    unfolding checkInput_stateMachine [OF assms(1)] idleWalkCase_def by simp
qed

lemma checkInput_jump:
  assumes "isControlEnabled p" "status p = JUMPSTART \<or> status p = JUMPDOWN"
  shows "checkInput keys tm p =
     (if isKeyDown keys ''C''
        then (inputPre keys p)\<lparr>status := JUMPATTACK, attackTimer := 0, angle := 120\<rparr>
      else safetyResets (isKeyDown keys ''X'') (isKeyDown keys ''Z'') (isKeyDown keys ''LEFT'')
             (isKeyDown keys ''RIGHT'')
             (handleAirMovement (isKeyDown keys ''LEFT'') (isKeyDown keys ''RIGHT'') (getTime tm)
                (if status p = JUMPSTART
                   then jumpStartAscent (isKeyDown keys ''X'') (getTime tm) (inputPre keys p)
                 else inputPre keys p)))"
proof -
  have "stateMachine (isKeyDown keys ''X'') (isKeyDown keys ''Z'') (isKeyDown keys ''LEFT'')
              (isKeyDown keys ''RIGHT'') (isKeyDown keys ''C'') (isKeyDown keys ''V'')
              (getTime tm) (inputPre keys p)
        = jumpCase (isKeyDown keys ''X'') (isKeyDown keys ''LEFT'')
              (isKeyDown keys ''RIGHT'') (isKeyDown keys ''C'') (getTime tm) (inputPre keys p)"
    using assms(2) by (auto simp add: stateMachine_def inputPre_fields)
  then show ?thesis
    unfolding checkInput_stateMachine [OF assms(1)] jumpCase_def Let_def
    by (simp add: inputPre_fields)
qed

lemma checkInput_locked:
  assumes "isControlEnabled p" "status p = DASH \<or> status p = DASHEND"
  shows "checkInput keys tm p =
     safetyResets (isKeyDown keys ''X'') (isKeyDown keys ''Z'') (isKeyDown keys ''LEFT'')
       (isKeyDown keys ''RIGHT'') (inputPre keys p)"
  using assms(2) unfolding checkInput_stateMachine [OF assms(1)]
  by (auto simp add: stateMachine_def inputPre_fields)

lemma checkInput_attacking:
  assumes "isControlEnabled p"
    "status p = A1 \<or> status p = JUMPATTACK \<or> status p = FIREATTACK"
  shows "checkInput keys tm p =
     safetyResets (isKeyDown keys ''X'') (isKeyDown keys ''Z'') (isKeyDown keys ''LEFT'')
       (isKeyDown keys ''RIGHT'') (attackCase (getTime tm) (inputPre keys p))"
  using assms(2) unfolding checkInput_stateMachine [OF assms(1)]
  by (auto simp add: stateMachine_def inputPre_fields)

lemma checkInput_other:
  assumes "isControlEnabled p"
    "status p = ATTACKED \<or> status p = JUMPOFF \<or> status p = WALL \<or> status p = DAMAGED
     \<or> status p = A2 \<or> status p = A3"
  shows "checkInput keys tm p =
     safetyResets (isKeyDown keys ''X'') (isKeyDown keys ''Z'') (isKeyDown keys ''LEFT'')
       (isKeyDown keys ''RIGHT'')
       (if positionStation (inputPre keys p) = AIR then (inputPre keys p)\<lparr>status := JUMPDOWN\<rparr>
        else inputPre keys p)"
  using assms(2) unfolding checkInput_stateMachine [OF assms(1)]
  by (auto simp add: stateMachine_def inputPre_fields)

lemmas action_defs = basicAttack_def fireAttack_def superJump_def regularJump_def startDash_def

lemma safetyResets_status:
  "status (safetyResets x z l r p) = status p
   \<or> (status (safetyResets x z l r p) = IDLE \<and> \<not> isAttacking p \<and> status p \<noteq> WALK
       \<and> status p \<noteq> DASH \<and> status p \<noteq> DASHEND)"
proof -
  have a: "status (safetyStuckDash (safetyDashKey z (safetyJumpKey x p))) = status p"
    by (simp add: safetyStuckDash_def safetyDashKey_def safetyJumpKey_def Let_def)
  have b: "isAttacking (safetyStuckDash (safetyDashKey z (safetyJumpKey x p))) = isAttacking p"
    by (simp add: isAttacking_def a)
  show ?thesis
    by (simp add: safetyResets_def safetyForceIdle_def a b)
qed

lemma safetyResets_jumpKeyWasPressed:
  "jumpKeyWasPressed (safetyResets x z l r p) =
     (if isOnGround p \<and> \<not> x then False else jumpKeyWasPressed p)"
  by (simp add: safetyResets_def safetyForceIdle_def safetyStuckDash_def safetyDashKey_def
      safetyJumpKey_def Let_def)

lemma handleWalking_status:
  "status (handleWalking l r dt p) = WALK \<or> status (handleWalking l r dt p) = IDLE
   \<or> status (handleWalking l r dt p) = status p"
  by (simp add: handleWalking_def updateScroll_fields)

lemma attackCase_effect:
  "status (attackCase dt p) =
     (if attackTimer p + dt \<ge> maxAttackDuration p then
        (if status p = JUMPATTACK \<and> \<not> isOnGround p then JUMPDOWN else IDLE)
      else status p)"
  "attackTimer (attackCase dt p) =
     (if attackTimer p + dt \<ge> maxAttackDuration p then 0 else attackTimer p + dt)"
  by (simp_all add: attackCase_def Let_def)

lemma jumpStartAscent_status:
  "status (jumpStartAscent x dt p) = status p \<or> status (jumpStartAscent x dt p) = JUMPDOWN"
  by (simp add: jumpStartAscent_def Let_def)

lemma status_groups [case_names idleWalk jump locked attacking other]:
  obtains "status p = IDLE \<or> status p = WALK"
  | "status p = JUMPSTART \<or> status p = JUMPDOWN"
  | "status p = DASH \<or> status p = DASHEND"
  | "status p = A1 \<or> status p = JUMPATTACK \<or> status p = FIREATTACK"
  | "status p = ATTACKED \<or> status p = JUMPOFF \<or> status p = WALL \<or> status p = DAMAGED
       \<or> status p = A2 \<or> status p = A3"
  by (cases "status p") simp_all

lemma checkInput_constantsOf: "constantsOf (checkInput keys tm p) = constantsOf p"
proof (cases "isControlEnabled p")
  case False
  then show ?thesis by (simp add: checkInput_def)
next
  case ctrl: True
  show ?thesis
  proof (cases rule: status_groups [of p])
    case idleWalk
    then show ?thesis
      by (simp add: checkInput_idleWalk [OF ctrl] action_defs Let_def constantsOf_updates
          safetyResets_fields handleWalking_fields inputPre_fields)
  next
    case jump
    then show ?thesis
      by (simp add: checkInput_jump [OF ctrl] constantsOf_updates
          safetyResets_fields handleAirMovement_fields jumpStartAscent_fields inputPre_fields)
  next
    case locked
    then show ?thesis
      by (simp add: checkInput_locked [OF ctrl] safetyResets_fields inputPre_fields)
  next
    case attacking
    then show ?thesis
      by (simp add: checkInput_attacking [OF ctrl] safetyResets_fields attackCase_fields
          inputPre_fields)
  next
    case other
    then show ?thesis
      by (simp add: checkInput_other [OF ctrl] safetyResets_fields constantsOf_updates
          inputPre_fields)
  qed
qed

section \<open>Summary of the input stage\<close>

lemma checkInput_velocityY:
  "velocityY (checkInput keys tm p) = velocityY p
   \<or> velocityY (checkInput keys tm p) = - jumpPower p * 10 * superJumpMultiplier p
   \<or> velocityY (checkInput keys tm p) = - jumpPower p * 10"
proof (cases "isControlEnabled p")
  case False
  then show ?thesis by (simp add: checkInput_def)
next
  case ctrl: True
  show ?thesis
  proof (cases rule: status_groups [of p])
    case idleWalk
    then show ?thesis
      by (simp add: checkInput_idleWalk [OF ctrl] action_defs Let_def
          safetyResets_fields handleWalking_fields inputPre_fields)
  next
    case jump
    then show ?thesis
      by (simp add: checkInput_jump [OF ctrl]
          safetyResets_fields handleAirMovement_fields jumpStartAscent_fields inputPre_fields)
  next
    case locked
    then show ?thesis
      by (simp add: checkInput_locked [OF ctrl] safetyResets_fields inputPre_fields)
  next
    case attacking
    then show ?thesis
      by (simp add: checkInput_attacking [OF ctrl] safetyResets_fields attackCase_fields
          inputPre_fields)
  next
    case other
    then show ?thesis
      by (simp add: checkInput_other [OF ctrl] safetyResets_fields inputPre_fields)
  qed
qed

lemma walk_status:
  assumes "status q = IDLE \<or> status q = WALK"
  shows "status (safetyResets x z l r (handleWalking l r dt q)) = IDLE
         \<or> status (safetyResets x z l r (handleWalking l r dt q)) = WALK"
  using assms handleWalking_status [of l r dt q]
    safetyResets_status [of x z l r "handleWalking l r dt q"]
  by auto

lemma air_status:
  assumes "status q = JUMPSTART \<or> status q = JUMPDOWN"
  shows "status (safetyResets x z l r (handleAirMovement l r dt
            (if status q = JUMPSTART then jumpStartAscent x dt q else q)))
         \<in> {JUMPSTART, JUMPDOWN, IDLE}"
  using assms jumpStartAscent_status [of x dt q]
    safetyResets_status [of x z l r "handleAirMovement l r dt
            (if status q = JUMPSTART then jumpStartAscent x dt q else q)"]
  by (auto simp add: handleAirMovement_fields)

lemma locked_status:
  assumes "status q = DASH \<or> status q = DASHEND"
  shows "status (safetyResets x z l r q) = status q"
  using assms safetyResets_status [of x z l r q] by auto

lemma attacking_status:
  assumes "isAttacking q"
  shows "status (safetyResets x z l r q) = status q"
  using assms safetyResets_status [of x z l r q] by auto

lemma other_status:
  assumes "status q = ATTACKED \<or> status q = JUMPOFF \<or> status q = WALL \<or> status q = DAMAGED
     \<or> status q = A2 \<or> status q = A3"
  shows "status (safetyResets x z l r (if positionStation q = AIR then q\<lparr>status := JUMPDOWN\<rparr>
        else q)) \<in> {status q, JUMPDOWN, IDLE}"
  using assms safetyResets_status [of x z l r "if positionStation q = AIR then q\<lparr>status := JUMPDOWN\<rparr>
        else q"] by auto

lemma checkInput_groundAttack:
  assumes ctrl: "isControlEnabled p"
    and pre: "status p = A1 \<or> status p = FIREATTACK \<longrightarrow> posy p \<ge> maxYPosition p"
  shows "status (checkInput keys tm p) = A1 \<or> status (checkInput keys tm p) = FIREATTACK \<longrightarrow>
         isOnGround (checkInput keys tm p) \<and> posy (checkInput keys tm p) = posy p
         \<and> posy p \<ge> maxYPosition p \<and> velocityY (checkInput keys tm p) = velocityY p"
proof (cases rule: status_groups [of p])
  case idleWalk
  then have st: "status (inputPre keys p) = IDLE \<or> status (inputPre keys p) = WALK"
    by (simp add: inputPre_fields)
  have ne: "status (safetyResets x z l r (handleWalking l r dt (inputPre keys p))) \<noteq> A1"
    "status (safetyResets x z l r (handleWalking l r dt (inputPre keys p))) \<noteq> FIREATTACK"
    for x z l r dt
    using walk_status [OF st, of x z l r dt] by auto
  show ?thesis
    by (simp add: checkInput_idleWalk [OF ctrl idleWalk] action_defs Let_def inputPre_fields ne)
next
  case jump
  then have st: "status (inputPre keys p) = JUMPSTART \<or> status (inputPre keys p) = JUMPDOWN"
    by (simp add: inputPre_fields)
  have ne: "status (safetyResets x z l r (handleAirMovement l r dt
            (if status (inputPre keys p) = JUMPSTART then jumpStartAscent x dt (inputPre keys p)
             else inputPre keys p))) \<noteq> A1"
    "status (safetyResets x z l r (handleAirMovement l r dt
            (if status (inputPre keys p) = JUMPSTART then jumpStartAscent x dt (inputPre keys p)
             else inputPre keys p))) \<noteq> FIREATTACK"
    for x z l r dt
    using air_status [OF st, of x z l r dt] by auto
  show ?thesis
    using ne [of "isKeyDown keys ''X''" "isKeyDown keys ''Z''" "isKeyDown keys ''LEFT''"
        "isKeyDown keys ''RIGHT''" "getTime tm"]
    by (simp add: checkInput_jump [OF ctrl jump] inputPre_fields)
next
  case locked
  then have st: "status (inputPre keys p) = DASH \<or> status (inputPre keys p) = DASHEND"
    by (simp add: inputPre_fields)
  from locked_status [OF st] locked show ?thesis
    by (auto simp add: checkInput_locked [OF ctrl locked] inputPre_fields)
next
  case attacking
  have sr: "status (safetyResets x z l r (attackCase dt q)) = status (attackCase dt q)"
    if "status q = A1 \<or> status q = JUMPATTACK \<or> status q = FIREATTACK" for x z l r dt q
  proof (cases "isOnGround q")
    case True
    with that safetyResets_status [of x z l r "attackCase dt q"] show ?thesis
      by (auto simp add: attackCase_effect isAttacking_def split: if_splits)
  next
    case False
    then show ?thesis by (simp add: safetyResets_def attackCase_fields)
  qed
  from attacking have st: "status (inputPre keys p) = A1 \<or> status (inputPre keys p) = JUMPATTACK
      \<or> status (inputPre keys p) = FIREATTACK"
    by (simp add: inputPre_fields)
  from attacking pre show ?thesis
    by (auto simp add: checkInput_attacking [OF ctrl attacking] sr [OF st] safetyResets_fields
        attackCase_fields attackCase_effect inputPre_fields split: if_splits)
next
  case other
  then have st: "status (inputPre keys p) = ATTACKED \<or> status (inputPre keys p) = JUMPOFF
     \<or> status (inputPre keys p) = WALL \<or> status (inputPre keys p) = DAMAGED
     \<or> status (inputPre keys p) = A2 \<or> status (inputPre keys p) = A3"
    by (simp add: inputPre_fields)
  from other_status [OF st, of "isKeyDown keys ''X''" "isKeyDown keys ''Z''"
      "isKeyDown keys ''LEFT''" "isKeyDown keys ''RIGHT''"] other
  show ?thesis
    by (auto simp add: checkInput_other [OF ctrl other] inputPre_fields)
qed

lemma safetyResets_airborne: "\<not> isOnGround p \<Longrightarrow> safetyResets x z l r p = p"
  by (simp add: safetyResets_def)

lemma attacking_step_status:
  assumes "status q = A1 \<or> status q = JUMPATTACK \<or> status q = FIREATTACK"
  shows "status (safetyResets x z l r (attackCase dt q)) = status (attackCase dt q)"
proof (cases "isOnGround q")
  case True
  with assms safetyResets_status [of x z l r "attackCase dt q"] show ?thesis
    by (auto simp add: attackCase_effect isAttacking_def split: if_splits)
next
  case False
  then show ?thesis by (simp add: safetyResets_def attackCase_fields)
qed

text \<open>While the jump key is held and its edge memory is set, the input stage keeps the
  memory set and does not enter \<open>JUMPSTART\<close>.\<close>

lemma checkInput_held:
  assumes x: "isKeyDown keys ''X''" and j: "jumpKeyWasPressed p"
  shows "jumpKeyWasPressed (checkInput keys tm p)
         \<and> (status (checkInput keys tm p) = JUMPSTART \<longrightarrow> status p = JUMPSTART)"
proof (cases "isControlEnabled p")
  case False
  with j show ?thesis by (simp add: checkInput_def)
next
  case ctrl: True
  show ?thesis
  proof (cases rule: status_groups [of p])
    case idleWalk
    then have st: "status (inputPre keys p) = IDLE \<or> status (inputPre keys p) = WALK"
      by (simp add: inputPre_fields)
    have ne: "status (safetyResets x z l r (handleWalking l r dt (inputPre keys p)))
                \<noteq> JUMPSTART" for x z l r dt
      using walk_status [OF st, of x z l r dt] by auto
    from x j show ?thesis
      by (simp add: checkInput_idleWalk [OF ctrl idleWalk] action_defs Let_def
          inputPre_fields ne safetyResets_jumpKeyWasPressed handleWalking_fields)
  next
    case jump
    have a: "status (safetyResets x z l r (handleAirMovement l r dt q)) \<noteq> JUMPSTART"
      if "status q = JUMPDOWN" for x z l r dt q
      using that safetyResets_status [of x z l r "handleAirMovement l r dt q"]
      by (auto simp add: handleAirMovement_fields)
    from x j jump show ?thesis
      by (auto simp add: checkInput_jump [OF ctrl jump] inputPre_fields a
          safetyResets_jumpKeyWasPressed handleAirMovement_fields jumpStartAscent_fields)
  next
    case locked
    then have st: "status (inputPre keys p) = DASH \<or> status (inputPre keys p) = DASHEND"
      by (simp add: inputPre_fields)
    from x j locked locked_status [OF st] show ?thesis
      by (auto simp add: checkInput_locked [OF ctrl locked] inputPre_fields
          safetyResets_jumpKeyWasPressed)
  next
    case attacking
    then have st: "status (inputPre keys p) = A1 \<or> status (inputPre keys p) = JUMPATTACK
      \<or> status (inputPre keys p) = FIREATTACK"
      by (simp add: inputPre_fields)
    from x j attacking show ?thesis
      by (auto simp add: checkInput_attacking [OF ctrl attacking] inputPre_fields
          attacking_step_status [OF st] attackCase_effect attackCase_fields
          safetyResets_jumpKeyWasPressed)
  next
    case other
    then have st: "status (inputPre keys p) = ATTACKED \<or> status (inputPre keys p) = JUMPOFF
     \<or> status (inputPre keys p) = WALL \<or> status (inputPre keys p) = DAMAGED
     \<or> status (inputPre keys p) = A2 \<or> status (inputPre keys p) = A3"
      by (simp add: inputPre_fields)
    from other_status [OF st, of "isKeyDown keys ''X''" "isKeyDown keys ''Z''"
      "isKeyDown keys ''LEFT''" "isKeyDown keys ''RIGHT''"] x j other
    show ?thesis
      by (auto simp add: checkInput_other [OF ctrl other] inputPre_fields
          safetyResets_jumpKeyWasPressed)
  qed
qed

text \<open>With the jump key up, the input stage leaves the edge memory cleared.\<close>

lemma checkInput_released:
  assumes ctrl: "isControlEnabled p" and x: "\<not> isKeyDown keys ''X''"
  shows "\<not> jumpKeyWasPressed (checkInput keys tm p)"
proof (cases rule: status_groups [of p])
  case idleWalk
  from x show ?thesis
    by (simp add: checkInput_idleWalk [OF ctrl idleWalk] action_defs Let_def
        inputPre_fields safetyResets_jumpKeyWasPressed handleWalking_fields)
next
  case jump
  from x show ?thesis
    by (simp add: checkInput_jump [OF ctrl jump] inputPre_fields
        safetyResets_jumpKeyWasPressed handleAirMovement_fields jumpStartAscent_fields)
next
  case locked
  from x show ?thesis
    by (simp add: checkInput_locked [OF ctrl locked] inputPre_fields
        safetyResets_jumpKeyWasPressed)
next
  case attacking
  from x show ?thesis
    by (simp add: checkInput_attacking [OF ctrl attacking] inputPre_fields
        attackCase_fields safetyResets_jumpKeyWasPressed)
next
  case other
  from x show ?thesis
    by (simp add: checkInput_other [OF ctrl other] inputPre_fields
        safetyResets_jumpKeyWasPressed)
qed

section \<open>The frame invariant\<close>

lemma constructed_constants:
  assumes "constantsOf p = constantsOf newPlayer"
  shows "maxYPosition p = 480" "speed p = 220" "highSpeed p = 350" "jumpPower p = 15"
    "gravity p = 300" "maxFallSpeed p = 400" "dashDistance p = 300" "dashSpeed p = 350"
    "canChangeDashDirection p" "startAcceleration p = 0.4" "endDeceleration p = 0.6"
    "maxAttackDuration p = 1" "superJumpVelocityX p = 300" "superJumpMultiplier p = 1.5"
    "isControlEnabled p" "active p" "\<not> destroyed p"
  using assms by (simp_all add: constantsOf_def newPlayer_def)

lemma frameInv_newPlayer: "frameInv newPlayer"
  by (simp add: frameInv_def newPlayer_def)

lemma frameInv_constants:
  "frameInv p \<Longrightarrow> constantsOf p = constantsOf newPlayer"
  by (simp add: frameInv_def)

lemma frameInv_physicsPre: "frameInv p \<Longrightarrow> physicsPre p"
  by (auto simp add: frameInv_def physicsPre_def)

lemma inputStage_physicsPre:
  assumes "frameInv p"
  shows "physicsPre (inputStage keys tm p)"
proof -
  note c = constructed_constants [OF frameInv_constants [OF assms]]
  have ctrl: "isControlEnabled p" by (rule c)
  have ie: "inputStage keys tm p = checkInput keys tm p"
    by (simp add: inputStage_def ctrl)
  have k: "constantsOf (checkInput keys tm p) = constantsOf newPlayer"
    using assms by (simp add: checkInput_constantsOf frameInv_def)
  have v: "velocityY (checkInput keys tm p) \<le> maxFallSpeed (checkInput keys tm p)"
    using checkInput_velocityY [of keys tm p] assms
    by (auto simp add: constructed_constants [OF k] c frameInv_def)
  have pre: "status p = A1 \<or> status p = FIREATTACK \<longrightarrow> posy p \<ge> maxYPosition p"
    using assms by (auto simp add: frameInv_def)
  have a: "status (checkInput keys tm p) = A1 \<or> status (checkInput keys tm p) = FIREATTACK \<longrightarrow>
           isOnGround (checkInput keys tm p)
           \<and> posy (checkInput keys tm p) \<ge> maxYPosition (checkInput keys tm p)
           \<and> velocityY (checkInput keys tm p) = 0"
    using checkInput_groundAttack [OF ctrl pre, of keys tm] assms
    by (auto simp add: constructed_constants [OF k] c frameInv_def)
  from k v a show ?thesis by (simp add: physicsPre_def ie)
qed

lemma updatePhysics_frameInv:
  assumes "physicsPre q"
  shows "frameInv (updatePhysics keys dt q)"
proof -
  have kq: "constantsOf q = constantsOf newPlayer" using assms by (simp add: physicsPre_def)
  note c = constructed_constants [OF kq]
  have k: "constantsOf (updatePhysics keys dt q) = constantsOf newPlayer"
    by (simp add: updatePhysics_fields kq)
  note c' = constructed_constants [OF k]
  have v: "velocityY (updatePhysics keys dt q) \<le> maxFallSpeed (updatePhysics keys dt q)"
    using updatePhysics_velocityY [of q keys dt] assms
    by (simp add: c c' physicsPre_def)
  have a: "status (updatePhysics keys dt q) = A1 \<or> status (updatePhysics keys dt q) = FIREATTACK
           \<longrightarrow> posy (updatePhysics keys dt q) = maxYPosition (updatePhysics keys dt q)"
    using updatePhysics_status [of keys dt q] updatePhysics_grounded [of q keys dt] assms
    by (auto simp add: c c' physicsPre_def)
  from k v a updatePhysics_post [of keys dt q] show ?thesis
    by (simp add: frameInv_def c c')
qed

lemma updateAnimation_frameInv:
  assumes "frameInv r"
  shows "frameInv (updateAnimation keys dt r)"
  using assms updateAnimation_status [of keys dt r]
  by (auto simp add: frameInv_def updateAnimation_fields
      constantsOf_fields [OF updateAnimation_fields(1)])

lemma update_frameInv:
  assumes "frameInv p"
  shows "frameInv (update keys tm dt p)"
proof -
  note c = constructed_constants [OF frameInv_constants [OF assms]]
  let ?p3 = "updateAnimation keys dt (updatePhysics keys dt (inputStage keys tm p))"
  have f3: "frameInv ?p3"
    by (intro updateAnimation_frameInv updatePhysics_frameInv inputStage_physicsPre assms)
  note c3 = constructed_constants [OF frameInv_constants [OF f3]]
  have "frameInv (updatePhysics keys dt (updateAnimation keys dt ?p3))"
    by (intro updatePhysics_frameInv frameInv_physicsPre updateAnimation_frameInv f3)
  then show ?thesis
    by (simp add: update_def gameObjectUpdate_def c c3)
qed

lemma reachable_frameInv: "reachable p \<Longrightarrow> frameInv p"
  by (induction rule: reachable.induct) (simp_all add: frameInv_newPlayer update_frameInv)

section \<open>Claims about the state machine\<close>

lemmas exec_defs = update_def gameObjectUpdate_def inputStage_def checkInput_def
  inputPre_def groundDetection_def resetKeyTracking_def stateMachine_def idleWalkCase_def
  jumpCase_def attackCase_def basicAttack_def fireAttack_def superJump_def regularJump_def
  startDash_def handleWalking_def handleAirMovement_def jumpStartAscent_def
  safetyResets_def safetyForceIdle_def safetyStuckDash_def safetyDashKey_def
  safetyJumpKey_def isAttacking_def updateScroll_def getScrollOffset_def setScrollOffset_def
  updatePhysics_def applyGravity_def superJumpPhysics_def statePhysics_def dashMoving_def
  easingFactor_def applyVelocities_def groundCollision_def screenBoundaries_def
  updateAnimation_def changeAnimation_def animationCompleted_def targetAnimation_def
  animations_def isKeyDown_def getTime_def newPlayer_def newObjectSortManager_def
  initializeLayers_def Let_def

text \<open>
  Claim C1, as amended. In every frame that starts with status \<open>IDLE\<close> or \<open>WALK\<close>, with
  the jump and dash keys down, neither edge-memory flag set, the entity grounded, both
  locks open, and neither the attack key nor the fire-attack key down, the input stage
  takes the transition to \<open>JUMPSTART\<close> with \<open>isSuperJumping\<close> set, vertical velocity
  \<open>- jumpPower * 10 * 1.5\<close> and horizontal velocity \<open>superJumpVelocityX\<close> when facing
  right, \<open>- superJumpVelocityX\<close> when facing left; the result is not a plain jump (whose
  vertical velocity is \<open>- jumpPower * 10\<close>) and not a dash (status, \<open>isDashing\<close> and
  \<open>dashPhase\<close> show none).
\<close>

theorem super_jump_priority:
  assumes "reachable p"
    and "status p = IDLE \<or> status p = WALK"
    and "isKeyDown keys ''X''" "isKeyDown keys ''Z''"
    and "\<not> isKeyDown keys ''C''" "\<not> isKeyDown keys ''V''"
    and "\<not> jumpKeyWasPressed p" "\<not> dashKeyWasPressed p"
    and "isOnGround p" "canJump p" "canDashAgain p"
  shows "status (checkInput keys tm p) = JUMPSTART
     \<and> isSuperJumping (checkInput keys tm p)
     \<and> velocityY (checkInput keys tm p) = - jumpPower p * 10 * 1.5
     \<and> (direction p = RIGHT \<longrightarrow> velocityX (checkInput keys tm p) = superJumpVelocityX p)
     \<and> (direction p = LEFT \<longrightarrow> velocityX (checkInput keys tm p) = - superJumpVelocityX p)
     \<and> velocityY (checkInput keys tm p) \<noteq> - jumpPower p * 10
     \<and> status (checkInput keys tm p) \<noteq> DASH
     \<and> isDashing (checkInput keys tm p) = isDashing p
     \<and> dashPhase (checkInput keys tm p) = dashPhase p"
proof -
  note f = reachable_frameInv [OF assms(1)]
  note c = constructed_constants [OF frameInv_constants [OF f]]
  have g: "posy p \<ge> maxYPosition p" using f assms(9) by (simp add: frameInv_def)
  have d: "isDashing (inputPre keys p) = isDashing p"
    using assms(2) by (auto simp add: inputPre_dash)
  have dk: "\<not> dashKeyWasPressed (inputPre keys p)"
    using assms(4,8) by (simp add: inputPre_dash)
  have e: "checkInput keys tm p = superJump (inputPre keys p)"
    using assms(3-7,10,11) g dk
    by (simp add: checkInput_idleWalk [OF c(15) assms(2)] inputPre_fields)
  show ?thesis
    by (simp add: e superJump_def inputPre_fields d c)
qed


theorem super_jump_priority_witness:
  "status (checkInput [''X'' \<mapsto> True, ''Z'' \<mapsto> True] \<lparr>deltaTime = 1/60\<rparr> newPlayer) = JUMPSTART
   \<and> isSuperJumping (checkInput [''X'' \<mapsto> True, ''Z'' \<mapsto> True] \<lparr>deltaTime = 1/60\<rparr> newPlayer)
   \<and> velocityY (checkInput [''X'' \<mapsto> True, ''Z'' \<mapsto> True] \<lparr>deltaTime = 1/60\<rparr> newPlayer)
       = - 225
   \<and> velocityX (checkInput [''X'' \<mapsto> True, ''Z'' \<mapsto> True] \<lparr>deltaTime = 1/60\<rparr> newPlayer)
       = 300"
  using super_jump_priority
    [where p = newPlayer and keys = "[''X'' \<mapsto> True, ''Z'' \<mapsto> True]"
       and tm = "\<lparr>deltaTime = 1/60\<rparr>", OF reachable_init]
  by (simp add: newPlayer_def isKeyDown_def)

text \<open>
  The claim as stated, without the condition on the attack keys, fails: on the initial
  player with jump, dash and attack all down, the attack rule, which the state switch
  tests first, wins and the status becomes \<open>A1\<close>.
\<close>

theorem super_jump_priority_counterexample:
  "reachable newPlayer \<and> status newPlayer = IDLE
   \<and> isKeyDown [''X'' \<mapsto> True, ''Z'' \<mapsto> True, ''C'' \<mapsto> True] ''X''
   \<and> isKeyDown [''X'' \<mapsto> True, ''Z'' \<mapsto> True, ''C'' \<mapsto> True] ''Z''
   \<and> \<not> jumpKeyWasPressed newPlayer \<and> \<not> dashKeyWasPressed newPlayer
   \<and> isOnGround newPlayer \<and> canJump newPlayer \<and> canDashAgain newPlayer
   \<and> status (checkInput [''X'' \<mapsto> True, ''Z'' \<mapsto> True, ''C'' \<mapsto> True]
               \<lparr>deltaTime = 1/60\<rparr> newPlayer) = A1
   \<and> \<not> isSuperJumping (checkInput [''X'' \<mapsto> True, ''Z'' \<mapsto> True, ''C'' \<mapsto> True]
               \<lparr>deltaTime = 1/60\<rparr> newPlayer)
   \<and> velocityY (checkInput [''X'' \<mapsto> True, ''Z'' \<mapsto> True, ''C'' \<mapsto> True]
               \<lparr>deltaTime = 1/60\<rparr> newPlayer) = 0"
proof -
  have ctrl: "isControlEnabled newPlayer" and st: "status newPlayer = IDLE \<or> status newPlayer = WALK"
    by (simp_all add: newPlayer_def)
  show ?thesis
    by (simp add: reachable_init checkInput_idleWalk [OF ctrl st] inputPre_fields
        basicAttack_def isKeyDown_def)
       (simp add: newPlayer_def)
qed

lemma safetyResets_attackTimer:
  "attackTimer (safetyResets x z l r p) = attackTimer p"
  by (simp add: safetyResets_def safetyForceIdle_def safetyStuckDash_def safetyDashKey_def
      safetyJumpKey_def Let_def)

text \<open>
  Claim C9, as amended. In every frame that starts with status \<open>IDLE\<close> or \<open>WALK\<close>, with
  the fire-attack key down, the basic-attack key up and the entity grounded, the input
  stage sets the status to \<open>FIREATTACK\<close>, resets the attack timer to 0 and forces
  \<open>positionStation\<close> to \<open>AIR\<close>, while \<open>isOnGround\<close> stays true and y stays at the ground
  line.
\<close>

theorem fire_attack_transition:
  assumes "reachable p"
    and "status p = IDLE \<or> status p = WALK"
    and "isKeyDown keys ''V''" "\<not> isKeyDown keys ''C''"
    and "isOnGround p"
  shows "status (checkInput keys tm p) = FIREATTACK
     \<and> attackTimer (checkInput keys tm p) = 0
     \<and> positionStation (checkInput keys tm p) = AIR
     \<and> isOnGround (checkInput keys tm p)
     \<and> posy (checkInput keys tm p) = posy p
     \<and> posy (checkInput keys tm p) = maxYPosition (checkInput keys tm p)"
proof -
  note f = reachable_frameInv [OF assms(1)]
  note c = constructed_constants [OF frameInv_constants [OF f]]
  have g: "posy p = maxYPosition p" using f assms(5) by (simp add: frameInv_def)
  have e: "checkInput keys tm p = fireAttack (inputPre keys p)"
    using assms(3,4) g
    by (simp add: checkInput_idleWalk [OF c(15) assms(2)] inputPre_fields)
  have m: "maxYPosition (inputPre keys p) = maxYPosition p"
    by (rule constantsOf_fields [OF inputPre_fields(1)])
  show ?thesis
    using g by (simp add: e fireAttack_def inputPre_fields m)
qed

theorem fire_attack_transition_witness:
  "status (checkInput [''V'' \<mapsto> True] \<lparr>deltaTime = 1/60\<rparr> newPlayer) = FIREATTACK
   \<and> positionStation (checkInput [''V'' \<mapsto> True] \<lparr>deltaTime = 1/60\<rparr> newPlayer) = AIR
   \<and> isOnGround (checkInput [''V'' \<mapsto> True] \<lparr>deltaTime = 1/60\<rparr> newPlayer)
   \<and> posy (checkInput [''V'' \<mapsto> True] \<lparr>deltaTime = 1/60\<rparr> newPlayer) = 480"
  using fire_attack_transition
    [where p = newPlayer and keys = "[''V'' \<mapsto> True]"
       and tm = "\<lparr>deltaTime = 1/60\<rparr>", OF reachable_init]
  by (simp add: newPlayer_def isKeyDown_def)

text \<open>
  The claim as stated, without the condition on the basic-attack key, fails: with both
  attack keys down the basic attack wins, the status is \<open>A1\<close> and the position station
  stays \<open>GROUND\<close>.
\<close>

theorem fire_attack_transition_counterexample:
  "reachable newPlayer \<and> status newPlayer = IDLE
   \<and> isKeyDown [''V'' \<mapsto> True, ''C'' \<mapsto> True] ''V''
   \<and> isOnGround newPlayer
   \<and> status (checkInput [''V'' \<mapsto> True, ''C'' \<mapsto> True] \<lparr>deltaTime = 1/60\<rparr> newPlayer) = A1
   \<and> positionStation (checkInput [''V'' \<mapsto> True, ''C'' \<mapsto> True] \<lparr>deltaTime = 1/60\<rparr>
        newPlayer) = GROUND"
proof -
  have ctrl: "isControlEnabled newPlayer" and st: "status newPlayer = IDLE \<or> status newPlayer = WALK"
    by (simp_all add: newPlayer_def)
  show ?thesis
    by (simp add: reachable_init checkInput_idleWalk [OF ctrl st] inputPre_fields
        basicAttack_def isKeyDown_def)
       (simp add: newPlayer_def inputPre_def resetKeyTracking_def groundDetection_def
         Let_def)
qed

text \<open>
  Claim C4. In every frame that starts with status \<open>A1\<close>, \<open>JUMPATTACK\<close> or
  \<open>FIREATTACK\<close>, the input stage adds the frame delta to the attack timer; as long as
  the sum stays below \<open>maxAttackDuration\<close> (1.0) timer and status are kept; in the frame
  in which the sum reaches the bound the timer is reset to 0 and the status is reverted,
  to \<open>JUMPDOWN\<close> if the entity is airborne and to \<open>IDLE\<close> otherwise. Nothing of the
  animation clock enters the statement. (Along every execution a player in status \<open>A1\<close>
  or \<open>FIREATTACK\<close> is grounded, which is why the source's test on \<open>JUMPATTACK\<close> alone
  agrees with the claim.)
\<close>

theorem attack_timeout:
  assumes "reachable p"
    and "status p = A1 \<or> status p = JUMPATTACK \<or> status p = FIREATTACK"
  shows "maxAttackDuration p = 1
     \<and> (isOnGround p \<longleftrightarrow> posy p \<ge> maxYPosition p)
     \<and> (attackTimer p + getTime tm < maxAttackDuration p \<longrightarrow>
          attackTimer (checkInput keys tm p) = attackTimer p + getTime tm
          \<and> status (checkInput keys tm p) = status p)
     \<and> (attackTimer p + getTime tm \<ge> maxAttackDuration p \<longrightarrow>
          attackTimer (checkInput keys tm p) = 0
          \<and> (\<not> isOnGround p \<longrightarrow> status (checkInput keys tm p) = JUMPDOWN)
          \<and> (isOnGround p \<longrightarrow> status (checkInput keys tm p) = IDLE))"
proof -
  note f = reachable_frameInv [OF assms(1)]
  note c = constructed_constants [OF frameInv_constants [OF f]]
  have st: "status (inputPre keys p) = A1 \<or> status (inputPre keys p) = JUMPATTACK
      \<or> status (inputPre keys p) = FIREATTACK"
    using assms(2) by (simp add: inputPre_fields)
  have g: "isOnGround p \<longleftrightarrow> posy p \<ge> maxYPosition p"
    using f by (auto simp add: frameInv_def)
  have a: "status p \<noteq> JUMPATTACK \<longrightarrow> isOnGround p"
    using f assms(2) by (auto simp add: frameInv_def)
  have m: "maxAttackDuration (inputPre keys p) = maxAttackDuration p"
    by (rule constantsOf_fields [OF inputPre_fields(1)])
  show ?thesis
    using g a
    by (auto simp add: checkInput_attacking [OF c(15) assms(2)] attacking_step_status [OF st]
        safetyResets_attackTimer attackCase_effect inputPre_fields m c(12))
qed

text \<open>A reachable state in status \<open>A1\<close>: the initial player after one frame with the
  attack key down.\<close>

lemma attack_frame:
  "status (update [''C'' \<mapsto> True] \<lparr>deltaTime = 0\<rparr> 0 newPlayer) = A1"
  "attackTimer (update [''C'' \<mapsto> True] \<lparr>deltaTime = 0\<rparr> 0 newPlayer) = 0"
  "isOnGround (update [''C'' \<mapsto> True] \<lparr>deltaTime = 0\<rparr> 0 newPlayer)"
  by (simp_all add: exec_defs)

theorem attack_timeout_witness:
  "attackTimer (checkInput Map.empty \<lparr>deltaTime = 1/20\<rparr>
      (update [''C'' \<mapsto> True] \<lparr>deltaTime = 0\<rparr> 0 newPlayer)) = 1/20
   \<and> status (checkInput Map.empty \<lparr>deltaTime = 1/20\<rparr>
      (update [''C'' \<mapsto> True] \<lparr>deltaTime = 0\<rparr> 0 newPlayer)) = A1
   \<and> status (checkInput Map.empty \<lparr>deltaTime = 1\<rparr>
      (update [''C'' \<mapsto> True] \<lparr>deltaTime = 0\<rparr> 0 newPlayer)) = IDLE
   \<and> attackTimer (checkInput Map.empty \<lparr>deltaTime = 1\<rparr>
      (update [''C'' \<mapsto> True] \<lparr>deltaTime = 0\<rparr> 0 newPlayer)) = 0"
proof -
  let ?q = "update [''C'' \<mapsto> True] \<lparr>deltaTime = 0\<rparr> 0 newPlayer"
  have r: "reachable ?q" by (intro reachable_update reachable_init)
  show ?thesis
    using attack_timeout [where p = ?q and keys = Map.empty and tm = "\<lparr>deltaTime = 1/20\<rparr>",
        OF r]
      attack_timeout [where p = ?q and keys = Map.empty and tm = "\<lparr>deltaTime = 1\<rparr>", OF r]
    by (simp add: attack_frame getTime_def)
qed

text \<open>
  Claim C6. Along every execution \<open>velocityY\<close> never exceeds \<open>maxFallSpeed\<close>: at the
  start of a frame, after the first physics step of the frame and at its end (after the
  second). Gravity is added only while not on the ground and the sum is clamped to
  \<open>maxFallSpeed\<close>; a physics step that ends on the ground leaves \<open>velocityY\<close> at 0.
\<close>

theorem fall_speed_clamped:
  assumes "reachable p"
  shows "velocityY p \<le> maxFallSpeed p
     \<and> velocityY (updatePhysics keys dt (inputStage keys tm p))
          \<le> maxFallSpeed (updatePhysics keys dt (inputStage keys tm p))
     \<and> velocityY (update keys tm dt p) \<le> maxFallSpeed (update keys tm dt p)
     \<and> velocityY (applyGravity dt (inputStage keys tm p)) =
          (if isOnGround (inputStage keys tm p) then velocityY (inputStage keys tm p)
           else min (velocityY (inputStage keys tm p) + gravity p * dt) (maxFallSpeed p))
     \<and> (isOnGround (updatePhysics keys dt (inputStage keys tm p)) \<longrightarrow>
          velocityY (updatePhysics keys dt (inputStage keys tm p)) = 0)"
proof -
  note f = reachable_frameInv [OF assms]
  let ?q = "inputStage keys tm p"
  have pq: "physicsPre ?q" by (rule inputStage_physicsPre [OF f])
  have fq: "frameInv (updatePhysics keys dt ?q)" by (rule updatePhysics_frameInv [OF pq])
  have fu: "frameInv (update keys tm dt p)" by (rule update_frameInv [OF f])
  have kq: "constantsOf ?q = constantsOf p"
    using f pq by (simp add: frameInv_def physicsPre_def)
  show ?thesis
    using f fq fu
    by (simp add: frameInv_def applyGravity_velocityY constantsOf_fields [OF kq])
qed

theorem fall_speed_clamped_witness:
  "velocityY (update [''X'' \<mapsto> True] \<lparr>deltaTime = 1/50\<rparr> (1/50) newPlayer)
     \<le> maxFallSpeed (update [''X'' \<mapsto> True] \<lparr>deltaTime = 1/50\<rparr> (1/50) newPlayer)
   \<and> velocityY (update [''X'' \<mapsto> True] \<lparr>deltaTime = 1/50\<rparr> (1/50) newPlayer) = - 138"
  using fall_speed_clamped [where p = newPlayer and keys = "[''X'' \<mapsto> True]"
      and tm = "\<lparr>deltaTime = 1/50\<rparr>" and dt = "1/50", OF reachable_init]
  by (simp add: exec_defs)

section \<open>Edge-triggered jump\<close>

lemma inputStage_held:
  assumes "isKeyDown keys ''X''" "jumpKeyWasPressed p"
  shows "jumpKeyWasPressed (inputStage keys tm p)"
    and "status (inputStage keys tm p) = JUMPSTART \<longrightarrow> status p = JUMPSTART"
  using checkInput_held [OF assms, of tm] assms(2) by (simp_all add: inputStage_def)

text \<open>Within one \<^verbatim>\<open>update\<close> call, only the input stage can enter \<open>JUMPSTART\<close>.\<close>

lemma updateStages_entries:
  "jumpStartEntries (updateStages keys tm dt p) =
     (if \<not> destroyed p \<and> status p \<noteq> JUMPSTART \<and> status (inputStage keys tm p) = JUMPSTART
      then 1 else 0)"
proof -
  have ph: "status (updatePhysics keys dt q) = JUMPSTART \<Longrightarrow> status q = JUMPSTART" for q
    using updatePhysics_status(1) [of keys dt q] by blast
  have an: "status (updateAnimation keys dt q) = JUMPSTART \<Longrightarrow> status q = JUMPSTART" for q
    using updateAnimation_status [of keys dt q] by auto
  show ?thesis
    unfolding updateStages_def Let_def
    by (auto dest: ph an)
qed

lemma update_jumpKeyWasPressed:
  "jumpKeyWasPressed (update keys tm dt p) =
     (if destroyed p then jumpKeyWasPressed p else jumpKeyWasPressed (inputStage keys tm p))"
  by (simp add: update_def gameObjectUpdate_def updatePhysics_fields updateAnimation_fields)

text \<open>Frames with the jump key held, started with the edge memory set, fire no
  transition and keep the memory set.\<close>

lemma held_frames:
  assumes "\<forall>f \<in> set fs. isKeyDown (fst f) ''X''" "jumpKeyWasPressed p"
  shows "jumpStartTransitions fs p = 0 \<and> jumpKeyWasPressed (runFrames fs p)"
  using assms
proof (induction fs arbitrary: p)
  case Nil
  then show ?case by simp
next
  case (Cons f fs)
  obtain keys tm dt where f: "f = (keys, tm, dt)" by (cases f)
  from Cons.prems f have x: "isKeyDown keys ''X''" by simp
  note h = inputStage_held [OF x Cons.prems(2), of tm]
  have j: "jumpKeyWasPressed (update keys tm dt p)"
    using h(1) Cons.prems(2) by (simp add: update_jumpKeyWasPressed)
  have rest: "\<forall>f \<in> set fs. isKeyDown (fst f) ''X''" using Cons.prems(1) by simp
  from Cons.IH [OF rest j] h(2) show ?case
    by (auto simp add: f updateStages_entries)
qed

lemma first_frame_fires:
  assumes "isControlEnabled p" "status p = IDLE \<or> status p = WALK"
    and "posy p \<ge> maxYPosition p" "\<not> jumpKeyWasPressed p" "canJump p"
    and "isKeyDown keys ''X''" "\<not> isKeyDown keys ''C''" "\<not> isKeyDown keys ''V''"
  shows "status (checkInput keys tm p) = JUMPSTART"
    and "jumpKeyWasPressed (checkInput keys tm p)"
  using assms(3-8)
  by (simp_all add: checkInput_idleWalk [OF assms(1,2)] inputPre_fields superJump_def
      regularJump_def)

text \<open>After a frame with the jump key up, the edge memory is clear and a grounded
  player may jump.\<close>

lemma released_frame:
  assumes "reachable p0" "\<not> isKeyDown keys0 ''X''"
  shows "\<not> jumpKeyWasPressed (update keys0 tm0 dt0 p0)"
    and "isOnGround (update keys0 tm0 dt0 p0) \<longrightarrow> canJump (update keys0 tm0 dt0 p0)"
proof -
  note f = reachable_frameInv [OF assms(1)]
  note c = constructed_constants [OF frameInv_constants [OF f]]
  let ?p3 = "updateAnimation keys0 dt0 (updatePhysics keys0 dt0 (inputStage keys0 tm0 p0))"
  have f3: "frameInv ?p3"
    by (intro updateAnimation_frameInv updatePhysics_frameInv inputStage_physicsPre f)
  note c3 = constructed_constants [OF frameInv_constants [OF f3]]
  have u: "update keys0 tm0 dt0 p0 = updatePhysics keys0 dt0 (updateAnimation keys0 dt0 ?p3)"
    by (simp add: update_def gameObjectUpdate_def c c3)
  have j: "\<not> jumpKeyWasPressed (updateAnimation keys0 dt0 ?p3)"
    using checkInput_released [OF c(15) assms(2), of tm0]
    by (simp add: updateAnimation_fields updatePhysics_fields inputStage_def c)
  show "\<not> jumpKeyWasPressed (update keys0 tm0 dt0 p0)"
    using j by (simp add: u updatePhysics_fields)
  show "isOnGround (update keys0 tm0 dt0 p0) \<longrightarrow> canJump (update keys0 tm0 dt0 p0)"
    unfolding u using updatePhysics_canJump [OF j] by blast
qed

text \<open>
  Claim C5, as amended. Take a run of one or more consecutive frames with the jump key
  held, starting from the initial player or right after a frame with the jump key up,
  with the entity grounded in \<open>IDLE\<close> or \<open>WALK\<close>, and with neither attack key down in
  the first frame. Then exactly one transition into \<open>JUMPSTART\<close> occurs in the run: it
  is taken by the input stage of the first frame, which sets \<open>jumpKeyWasPressed\<close>; no
  later frame of the run takes one, and the flag is still set at the end of the run.
\<close>

theorem jump_edge_trigger:
  assumes start: "p = newPlayer
                  \<or> (reachable p0 \<and> \<not> isKeyDown keys0 ''X'' \<and> p = update keys0 tm0 dt0 p0)"
    and st: "status p = IDLE \<or> status p = WALK"
    and ground: "isOnGround p"
    and held: "\<forall>f \<in> set ((keys, tm, dt) # fs). isKeyDown (fst f) ''X''"
    and noattack: "\<not> isKeyDown keys ''C''" "\<not> isKeyDown keys ''V''"
  shows "jumpStartTransitions ((keys, tm, dt) # fs) p = 1
     \<and> status (checkInput keys tm p) = JUMPSTART
     \<and> jumpKeyWasPressed (checkInput keys tm p)
     \<and> jumpStartEntries (updateStages keys tm dt p) = 1
     \<and> jumpStartTransitions fs (update keys tm dt p) = 0
     \<and> jumpKeyWasPressed (runFrames ((keys, tm, dt) # fs) p)"
proof -
  have r: "reachable p"
    using start by (auto intro: reachable_init reachable_update)
  note f = reachable_frameInv [OF r]
  note c = constructed_constants [OF frameInv_constants [OF f]]
  have g: "posy p \<ge> maxYPosition p" using f ground by (simp add: frameInv_def)
  have e: "\<not> jumpKeyWasPressed p \<and> canJump p"
    using start
  proof
    assume "p = newPlayer"
    then show ?thesis by (simp add: newPlayer_def)
  next
    assume a: "reachable p0 \<and> \<not> isKeyDown keys0 ''X'' \<and> p = update keys0 tm0 dt0 p0"
    then have "reachable p0" "\<not> isKeyDown keys0 ''X''" by simp_all
    from released_frame [OF this, of tm0 dt0] a ground show ?thesis by simp
  qed
  have x: "isKeyDown keys ''X''" using held by simp
  have rest: "\<forall>f \<in> set fs. isKeyDown (fst f) ''X''" using held by simp
  note fire = first_frame_fires [OF c(15) st g _ _ x noattack, of tm]
  have s: "status (checkInput keys tm p) = JUMPSTART"
    and j: "jumpKeyWasPressed (checkInput keys tm p)"
    using fire e by simp_all
  have ie: "inputStage keys tm p = checkInput keys tm p" by (simp add: inputStage_def c)
  have n: "jumpStartEntries (updateStages keys tm dt p) = 1"
    using s st by (auto simp add: updateStages_entries ie c)
  have ju: "jumpKeyWasPressed (update keys tm dt p)"
    using j by (simp add: update_jumpKeyWasPressed ie c)
  note h = held_frames [OF rest ju]
  from s j n h show ?thesis by simp
qed

theorem jump_edge_trigger_witness:
  "jumpStartTransitions
     [([''X'' \<mapsto> True], \<lparr>deltaTime = 1/50\<rparr>, 1/50),
      ([''X'' \<mapsto> True], \<lparr>deltaTime = 1/50\<rparr>, 1/50),
      ([''X'' \<mapsto> True], \<lparr>deltaTime = 1/50\<rparr>, 1/50)] newPlayer = 1
   \<and> status (checkInput [''X'' \<mapsto> True] \<lparr>deltaTime = 1/50\<rparr> newPlayer) = JUMPSTART"
proof -
  have np: "status newPlayer = IDLE \<or> status newPlayer = WALK" "isOnGround newPlayer"
    by (simp_all add: newPlayer_def)
  have start: "newPlayer = newPlayer
     \<or> (reachable newPlayer \<and> \<not> isKeyDown Map.empty ''X''
         \<and> newPlayer = update Map.empty \<lparr>deltaTime = 0\<rparr> 0 newPlayer)"
    by simp
  have held: "\<forall>f \<in> set (([''X'' \<mapsto> True], \<lparr>deltaTime = 1/50\<rparr>, 1/50)
       # [([''X'' \<mapsto> True], \<lparr>deltaTime = 1/50\<rparr>, 1/50),
          ([''X'' \<mapsto> True], \<lparr>deltaTime = 1/50\<rparr>, 1/50)]). isKeyDown (fst f) ''X''"
    by (simp add: isKeyDown_def)
  have no: "\<not> isKeyDown [''X'' \<mapsto> True] ''C''" "\<not> isKeyDown [''X'' \<mapsto> True] ''V''"
    by (simp_all add: isKeyDown_def)
  from jump_edge_trigger [OF start np held no]
  show ?thesis by blast
qed

text \<open>
  The claim as stated, without the condition on the attack keys, fails: holding jump
  and attack together from the initial player for a frame fires no \<open>JUMPSTART\<close>
  transition at all; the attack rule takes the first frame.
\<close>

theorem jump_edge_trigger_counterexample:
  "status newPlayer = IDLE \<and> isOnGround newPlayer
   \<and> isKeyDown [''X'' \<mapsto> True, ''C'' \<mapsto> True] ''X''
   \<and> jumpStartTransitions
        [([''X'' \<mapsto> True, ''C'' \<mapsto> True], \<lparr>deltaTime = 1/50\<rparr>, 1/50)] newPlayer = 0
   \<and> status (checkInput [''X'' \<mapsto> True, ''C'' \<mapsto> True] \<lparr>deltaTime = 1/50\<rparr> newPlayer)
       = A1"
proof -
  have ctrl: "isControlEnabled newPlayer" and st: "status newPlayer = IDLE \<or> status newPlayer = WALK"
    and g: "isOnGround newPlayer" "posy newPlayer = maxYPosition newPlayer"
    by (simp_all add: newPlayer_def)
  have a: "status (checkInput [''X'' \<mapsto> True, ''C'' \<mapsto> True] \<lparr>deltaTime = 1/50\<rparr> newPlayer)
           = A1"
    by (simp add: checkInput_idleWalk [OF ctrl st] inputPre_fields basicAttack_def
        isKeyDown_def g)
  have s0: "status newPlayer = IDLE" by (simp add: newPlayer_def)
  show ?thesis
    by (simp add: updateStages_entries inputStage_def ctrl a s0 g isKeyDown_def)
qed

end
